theory Spec2Isabelle
  imports Main "HOL-Library.AList"
begin

section \<open>Values exchanged with the outside world\<close>

text \<open>
  The connectors are JavaScript classes. Their fields hold either \<open>null\<close>/\<open>undefined\<close>
  (\<open>None\<close>) or a value. Times are integral milliseconds since the epoch, as
  \<open>Date.now()\<close> returns them. JavaScript tests fields by truthiness: \<open>null\<close>, the empty
  string and the number zero are all falsy.
\<close>

definition truthy_str :: "string option \<Rightarrow> bool" where
  "truthy_str v = (case v of None \<Rightarrow> False | Some s \<Rightarrow> s \<noteq> [])"

definition truthy_num :: "int option \<Rightarrow> bool" where
  "truthy_num v = (case v of None \<Rightarrow> False | Some n \<Rightarrow> n \<noteq> 0)"

text \<open>
  Request identifiers. The request interceptor builds
  \<^verbatim>\<open>ehr-${vendor}-${++requestCounter}-${Date.now()}\<close>; the FHIR verbs call \<open>uuidv4()\<close>
  (the n-th identifier drawn is \<open>Uuid n\<close>); the response interceptor falls back to the
  string \<^verbatim>\<open>'unknown'\<close>.
\<close>

datatype request_id = EhrId string nat int | Uuid nat | Unknown

text \<open>The request configuration object that axios threads through the interceptors.\<close>

record request_config =
  cfg_method :: string
  url :: string
  cfg_requestId :: "request_id option"
  authorization :: "string option"
  retry :: bool

text \<open>
  A JavaScript error object as the connector sees it: \<open>message\<close> always; \<open>response\<close>
  (the HTTP status of \<open>error.response\<close>) and \<open>config\<close> on errors raised by axios;
  \<open>status\<close> and \<open>requestId\<close> on the standardised error that the response interceptor
  builds.
\<close>

record js_error =
  message :: string
  response :: "nat option"
  config :: "request_config option"
  status :: "nat option"
  requestId :: "request_id option"

definition Error :: "string \<Rightarrow> js_error" where
  "Error msg = \<lparr>message = msg, response = None, config = None, status = None, requestId = None\<rparr>"

text \<open>
  Reading a property of \<open>undefined\<close> throws a \<open>TypeError\<close>; the message is the one of
  the V8 engine. Only its \<open>message\<close> is ever read by the connectors.
\<close>

definition TypeError :: "string \<Rightarrow> js_error" where
  "TypeError prop = Error (''Cannot read properties of undefined (reading '' @ [CHR 0x27] @ prop @ [CHR 0x27] @ '')'')"

text \<open>The outcome of one HTTP exchange made through axios: a 2xx response with its
  body, or a rejection carrying a message and, when the server answered, its status.\<close>

datatype 'a http_reply = Resolved 'a | Rejected string "nat option"

text \<open>
  Body of a token endpoint's answer. The interface of the token endpoint is
  \<open>{access_token, refresh_token?, expires_in}\<close>: the access token and its lifetime in
  seconds are always there, the refresh token may be missing.
\<close>

record token_data =
  access_token :: string
  refresh_token :: "string option"
  expires_in :: int

text \<open>The capability statement, as far as the Epic connector reads it.\<close>

datatype extension =
  Extension (ext_url: string) (valueUri: "string option") (ext_extension: "extension list option")

datatype security = Security (sec_extension: "extension list option")

record resource_entry =
  res_type :: string
  interaction :: "string list option"
  searchParam :: "string list option"

record rest_entry =
  rest_security :: "security option"
  rest_resource :: "resource_entry list option"

record capability_statement =
  rest :: "rest_entry list option"

record capability =
  cap_type :: string
  interactions :: "string list"
  searchParams :: "string list"

text \<open>A FHIR response body: a bundle's \<open>entry\<close> array (each entry stands for its
  \<open>resource\<close>), when there is one.\<close>

record fhir_data =
  entry :: "string list option"

section \<open>Connector state and the world around it\<close>

datatype connector_class = EhrConnector | EpicConnector | CernerConnector

datatype grant = ClientCredentials | RefreshTokenGrant

record audit_call =
  eventType :: string
  audit_resourceType :: string
  audit_requestId :: "request_id option"
  audit_method :: string
  audit_originalUrl :: string
  outcome_success :: bool

text \<open>What the connector does to the outside world, in the order it does it.\<close>

datatype event =
    AuthenticateCalled
  | TokenPost grant
  | MetadataGet
  | FhirSend request_config
  | AuditLogged audit_call

text \<open>
  The fields of a connector instance, together with the bookkeeping of the world:
  the \<open>trace\<close> of outbound calls so far, the number of \<open>Date.now()\<close> readings
  (\<open>ticks\<close>) and of \<open>uuidv4()\<close> draws (\<open>uuids\<close>).
\<close>

record connector =
  cls :: connector_class
  vendor :: string
  accessToken :: "string option"
  tokenExpiry :: "int option"
  refreshToken :: "string option"
  requestCounter :: nat
  epicMetadata :: "capability_statement option"
  capabilities :: "capability list"
  trace :: "event list"
  ticks :: nat
  uuids :: nat

text \<open>
  The environment answers the connector: the n-th POST to a token endpoint, the n-th
  GET of \<open>/metadata\<close>, the n-th FHIR request, the n-th reading of the clock, and the
  setting \<open>HIPAA_AUDIT_ENABLED === 'true'\<close>.
\<close>

record env =
  token_reply :: "nat \<Rightarrow> token_data http_reply"
  metadata_reply :: "nat \<Rightarrow> capability_statement http_reply"
  fhir_reply :: "nat \<Rightarrow> fhir_data http_reply"
  clock :: "nat \<Rightarrow> nat"
  audit_enabled :: bool

definition is_TokenPost :: "event \<Rightarrow> bool" where
  "is_TokenPost e = (case e of TokenPost _ \<Rightarrow> True | _ \<Rightarrow> False)"

definition is_MetadataGet :: "event \<Rightarrow> bool" where
  "is_MetadataGet e = (case e of MetadataGet \<Rightarrow> True | _ \<Rightarrow> False)"

definition is_FhirSend :: "event \<Rightarrow> bool" where
  "is_FhirSend e = (case e of FhirSend _ \<Rightarrow> True | _ \<Rightarrow> False)"

definition is_AuditLogged :: "event \<Rightarrow> bool" where
  "is_AuditLogged e = (case e of AuditLogged _ \<Rightarrow> True | _ \<Rightarrow> False)"

definition count_events :: "(event \<Rightarrow> bool) \<Rightarrow> connector \<Rightarrow> nat" where
  "count_events p c = length (filter p (trace c))"

definition emit :: "event \<Rightarrow> connector \<Rightarrow> connector" where
  "emit e c = c\<lparr>trace := trace c @ [e]\<rparr>"

text \<open>\<open>Date.now()\<close>: read the clock, which advances.\<close>

definition Date_now :: "env \<Rightarrow> connector \<Rightarrow> int \<times> connector" where
  "Date_now E c = (int (clock E (ticks c)), c\<lparr>ticks := Suc (ticks c)\<rparr>)"

text \<open>\<open>axios.post\<close> to a token endpoint and \<open>axios.get\<close> of the capability statement.\<close>

definition post_token :: "env \<Rightarrow> grant \<Rightarrow> connector \<Rightarrow> token_data http_reply \<times> connector" where
  "post_token E g c = (token_reply E (count_events is_TokenPost c), emit (TokenPost g) c)"

definition get_metadata :: "env \<Rightarrow> connector \<Rightarrow> capability_statement http_reply \<times> connector" where
  "get_metadata E c = (metadata_reply E (count_events is_MetadataGet c), emit MetadataGet c)"

section \<open>Token lifecycle\<close>

text \<open>
  \<^verbatim>\<open>
  isTokenExpired() {
    if (!this.accessToken || !this.tokenExpiry) { return true; }
    const bufferTime = 60 * 1000;
    return Date.now() >= (this.tokenExpiry - bufferTime);
  }
  \<close>
\<close>

definition isTokenExpired :: "env \<Rightarrow> connector \<Rightarrow> bool \<times> connector" where
  "isTokenExpired E c =
     (if \<not> truthy_str (accessToken c) \<or> \<not> truthy_num (tokenExpiry c) then (True, c)
      else let bufferTime = 60 * 1000; (now, c') = Date_now E c
           in (now \<ge> the (tokenExpiry c) - bufferTime, c'))"


text \<open>
  The base class leaves \<open>authenticate\<close> to its subclasses. The Cerner connector posts a
  client-credentials grant to a token endpoint fixed at construction:
  \<^verbatim>\<open>
  async authenticate() {
    try {
      const response = await axios.post(this.tokenUrl, qs.stringify({...}), {...});
      this.accessToken = response.data.access_token;
      this.tokenExpiry = Date.now() + (response.data.expires_in * 1000);
    } catch (error) {
      throw new Error(`Cerner authentication failed: ${error.message}`);
    }
  }
  \<close>
\<close>

definition cerner_authenticate :: "env \<Rightarrow> connector \<Rightarrow> (js_error + unit) \<times> connector" where
  "cerner_authenticate E c =
     (case post_token E ClientCredentials c of
        (Rejected msg st, c1) \<Rightarrow> (Inl (Error (''Cerner authentication failed: '' @ msg)), c1)
      | (Resolved d, c1) \<Rightarrow>
          (let (now, c2) = Date_now E c1
           in (Inr (), c2\<lparr>accessToken := Some (access_token d),
                           tokenExpiry := Some (now + expires_in d * 1000)\<rparr>)))"

text \<open>
  The Epic connector first needs the capability statement.
  \<^verbatim>\<open>
  this.capabilities = response.data.rest[0].resource.map(resource => ({
    type: resource.type,
    interactions: resource.interaction.map(i => i.code),
    searchParams: resource.searchParam?.map(p => p.name) || []
  }));
  \<close>
\<close>

fun map_resources :: "resource_entry list \<Rightarrow> js_error + capability list" where
  "map_resources [] = Inr []"
| "map_resources (r # rs) =
     (case interaction r of
        None \<Rightarrow> Inl (TypeError ''map'')
      | Some codes \<Rightarrow>
          (case map_resources rs of
             Inl e \<Rightarrow> Inl e
           | Inr caps \<Rightarrow>
               Inr (\<lparr>cap_type = res_type r, interactions = codes,
                      searchParams = (case searchParam r of None \<Rightarrow> [] | Some ps \<Rightarrow> ps)\<rparr> # caps)))"

definition extract_capabilities :: "capability_statement \<Rightarrow> js_error + capability list" where
  "extract_capabilities md =
     (case rest md of
        None \<Rightarrow> Inl (TypeError ''0'')
      | Some [] \<Rightarrow> Inl (TypeError ''resource'')
      | Some (r0 # _) \<Rightarrow>
          (case rest_resource r0 of
             None \<Rightarrow> Inl (TypeError ''map'')
           | Some rs \<Rightarrow> map_resources rs))"

text \<open>
  \<^verbatim>\<open>
  async fetchCapabilityStatement() {
    try {
      const response = await axios.get(`${this.baseUrl}/metadata`, {...});
      this.epicMetadata = response.data;
      this.capabilities = response.data.rest[0].resource.map(...);
      return this.epicMetadata;
    } catch (error) {
      throw new Error(`Failed to fetch Epic capability statement: ${error.message}`);
    }
  }
  \<close>
\<close>

definition fetchCapabilityStatement ::
  "env \<Rightarrow> connector \<Rightarrow> (js_error + capability_statement) \<times> connector" where
  "fetchCapabilityStatement E c =
     (case get_metadata E c of
        (Rejected msg st, c1) \<Rightarrow>
          (Inl (Error (''Failed to fetch Epic capability statement: '' @ msg)), c1)
      | (Resolved md, c1) \<Rightarrow>
          (let c2 = c1\<lparr>epicMetadata := Some md\<rparr>
           in case extract_capabilities md of
                Inl e \<Rightarrow>
                  (Inl (Error (''Failed to fetch Epic capability statement: '' @ message e)), c2)
              | Inr caps \<Rightarrow> (Inr md, c2\<lparr>capabilities := caps\<rparr>)))"

text \<open>
  \<^verbatim>\<open>
  const tokenUrl = this.epicMetadata.rest[0].security.extension.find(
    ext => ext.url === 'http://fhir-registry.smarthealthit.org/StructureDefinition/oauth-uris'
  )?.extension.find(ext => ext.url === 'token')?.valueUri;
  \<close>
  An optional chain \<open>?.\<close> gives \<open>undefined\<close> for the rest of the chain when its left side
  is \<open>undefined\<close>; a plain property read of \<open>undefined\<close> throws.
\<close>

definition oauth_uris :: string where
  "oauth_uris = ''http://fhir-registry.smarthealthit.org/StructureDefinition/oauth-uris''"

definition token_url_of :: "capability_statement \<Rightarrow> js_error + string option" where
  "token_url_of md =
     (case rest md of
        None \<Rightarrow> Inl (TypeError ''0'')
      | Some [] \<Rightarrow> Inl (TypeError ''security'')
      | Some (r0 # _) \<Rightarrow>
          (case rest_security r0 of
             None \<Rightarrow> Inl (TypeError ''extension'')
           | Some (Security None) \<Rightarrow> Inl (TypeError ''find'')
           | Some (Security (Some exts)) \<Rightarrow>
               (case find (\<lambda>ext. ext_url ext = oauth_uris) exts of
                  None \<Rightarrow> Inr None
                | Some uris \<Rightarrow>
                    (case ext_extension uris of
                       None \<Rightarrow> Inl (TypeError ''find'')
                     | Some subs \<Rightarrow>
                         (case find (\<lambda>ext. ext_url ext = ''token'') subs of
                            None \<Rightarrow> Inr None
                          | Some t \<Rightarrow> Inr (valueUri t))))))"

text \<open>
  \<^verbatim>\<open>
  async authenticate() {
    try {
      if (!this.epicMetadata) { await this.fetchCapabilityStatement(); }
      const tokenUrl = ...;
      if (!tokenUrl) {
        throw new Error('Unable to determine Epic token endpoint from capability statement');
      }
      const response = await axios.post(tokenUrl, qs.stringify({...}), {...});
      this.accessToken = response.data.access_token;
      this.refreshToken = response.data.refresh_token;
      this.tokenExpiry = Date.now() + (response.data.expires_in * 1000);
    } catch (error) {
      throw new Error(`Epic authentication failed: ${error.message}`);
    }
  }
  \<close>
  The body of the \<open>try\<close> block comes first, then the method with its \<open>catch\<close>.
\<close>

definition unable_to_determine :: string where
  "unable_to_determine = ''Unable to determine Epic token endpoint from capability statement''"

definition epic_authenticate_try :: "env \<Rightarrow> connector \<Rightarrow> (js_error + unit) \<times> connector" where
  "epic_authenticate_try E c =
     (case (if epicMetadata c = None then fetchCapabilityStatement E c
            else (Inr (the (epicMetadata c)), c)) of
        (Inl e, c1) \<Rightarrow> (Inl e, c1)
      | (Inr _, c1) \<Rightarrow>
          (case epicMetadata c1 of
             None \<Rightarrow> (Inl (TypeError ''rest''), c1)
           | Some md \<Rightarrow>
               (case token_url_of md of
                  Inl e \<Rightarrow> (Inl e, c1)
                | Inr tokenUrl \<Rightarrow>
                    if \<not> truthy_str tokenUrl then (Inl (Error unable_to_determine), c1)
                    else
                      (case post_token E ClientCredentials c1 of
                         (Rejected msg st, c2) \<Rightarrow> (Inl (Error msg), c2)
                       | (Resolved d, c2) \<Rightarrow>
                           (let (now, c3) = Date_now E c2
                            in (Inr (), c3\<lparr>accessToken := Some (access_token d),
                                            refreshToken := refresh_token d,
                                            tokenExpiry := Some (now + expires_in d * 1000)\<rparr>))))))"

definition epic_authenticate :: "env \<Rightarrow> connector \<Rightarrow> (js_error + unit) \<times> connector" where
  "epic_authenticate E c =
     (case epic_authenticate_try E c of
        (Inl e, c1) \<Rightarrow> (Inl (Error (''Epic authentication failed: '' @ message e)), c1)
      | (Inr u, c1) \<Rightarrow> (Inr u, c1))"

text \<open>Dynamic dispatch of \<open>this.authenticate()\<close> on the class of the instance.\<close>

definition authenticate :: "env \<Rightarrow> connector \<Rightarrow> (js_error + unit) \<times> connector" where
  "authenticate E c =
     (let c0 = emit AuthenticateCalled c
      in case cls c of
           EhrConnector \<Rightarrow>
             (Inl (Error ''authenticate method must be implemented by subclass''), c0)
         | EpicConnector \<Rightarrow> epic_authenticate E c0
         | CernerConnector \<Rightarrow> cerner_authenticate E c0)"

text \<open>
  \<^verbatim>\<open>
  async refreshAccessToken() {
    try {
      if (!this.refreshToken) { await this.authenticate(); return; }
      const response = await axios.post(`${this.baseUrl}/oauth2/token`, qs.stringify({
        grant_type: 'refresh_token', ...}), {...});
      this.accessToken = response.data.access_token;
      this.refreshToken = response.data.refresh_token || this.refreshToken;
      this.tokenExpiry = Date.now() + (response.data.expires_in * 1000);
    } catch (error) {
      this.accessToken = null;
      this.refreshToken = null;
      this.tokenExpiry = null;
      await this.authenticate();
    }
  }
  \<close>
\<close>

definition clear_tokens :: "connector \<Rightarrow> connector" where
  "clear_tokens c = c\<lparr>accessToken := None, refreshToken := None, tokenExpiry := None\<rparr>"

definition refreshAccessToken_try :: "env \<Rightarrow> connector \<Rightarrow> (js_error + unit) \<times> connector" where
  "refreshAccessToken_try E c =
     (if \<not> truthy_str (refreshToken c) then authenticate E c
      else
        (case post_token E RefreshTokenGrant c of
           (Rejected msg st, c1) \<Rightarrow> (Inl ((Error msg)\<lparr>response := st\<rparr>), c1)
         | (Resolved d, c1) \<Rightarrow>
             (let (now, c2) = Date_now E c1
              in (Inr (), c2\<lparr>accessToken := Some (access_token d),
                              refreshToken := (if truthy_str (refresh_token d) then refresh_token d
                                               else refreshToken c),
                              tokenExpiry := Some (now + expires_in d * 1000)\<rparr>))))"

definition refreshAccessToken :: "env \<Rightarrow> connector \<Rightarrow> (js_error + unit) \<times> connector" where
  "refreshAccessToken E c =
     (case refreshAccessToken_try E c of
        (Inr u, c1) \<Rightarrow> (Inr u, c1)
      | (Inl error, c1) \<Rightarrow> authenticate E (clear_tokens c1))"


section \<open>Request pipeline\<close>

text \<open>
  The request interceptor of \<open>this.httpClient\<close>:
  \<^verbatim>\<open>
  async (config) => {
    const requestId = `ehr-${this.vendor}-${++this.requestCounter}-${Date.now()}`;
    config.requestId = requestId;
    if (this.isTokenExpired()) { await this.refreshAccessToken(); }
    if (this.accessToken) { config.headers.Authorization = `Bearer ${this.accessToken}`; }
    return config;
  }
  \<close>
  Calls of the logger change nothing and are left out throughout.
\<close>

definition request_interceptor ::
  "env \<Rightarrow> request_config \<Rightarrow> connector \<Rightarrow> (js_error + request_config) \<times> connector" where
  "request_interceptor E cfg c =
     (let c1 = c\<lparr>requestCounter := Suc (requestCounter c)\<rparr>;
          (now, c2) = Date_now E c1;
          requestId = EhrId (vendor c2) (requestCounter c2) now;
          cfg1 = cfg\<lparr>cfg_requestId := Some requestId\<rparr>;
          (expired, c3) = isTokenExpired E c2
      in case (if expired then refreshAccessToken E c3 else (Inr (), c3)) of
           (Inl e, c4) \<Rightarrow> (Inl e, c4)
         | (Inr _, c4) \<Rightarrow>
             (Inr (if truthy_str (accessToken c4)
                   then cfg1\<lparr>authorization := Some (''Bearer '' @ the (accessToken c4))\<rparr>
                   else cfg1), c4))"

text \<open>
  The transport: the request leaves the process, and axios resolves with the response or
  rejects with an error that carries the configuration and, if the server answered, its
  status.
\<close>

definition dispatchRequest ::
  "env \<Rightarrow> request_config \<Rightarrow> connector \<Rightarrow> (js_error + fhir_data) \<times> connector" where
  "dispatchRequest E cfg c =
     (case fhir_reply E (count_events is_FhirSend c) of
        Resolved d \<Rightarrow> (Inr d, emit (FhirSend cfg) c)
      | Rejected msg st \<Rightarrow>
          (Inl \<lparr>message = msg, response = st, config = Some cfg, status = None, requestId = None\<rparr>,
           emit (FhirSend cfg) c))"

definition may_retry :: "js_error \<Rightarrow> bool" where
  "may_retry error =
     (response error = Some 401 \<and> (case config error of None \<Rightarrow> False | Some cf \<Rightarrow> \<not> retry cf))"

lemma authenticate_error_plain:
  "authenticate E c = (Inl e, c') \<Longrightarrow> config e = None \<and> response e = None"
  by (auto simp: authenticate_def Let_def epic_authenticate_def cerner_authenticate_def Error_def
      split: connector_class.splits prod.splits sum.splits http_reply.splits)

lemma refreshAccessToken_error_plain:
  "refreshAccessToken E c = (Inl e, c') \<Longrightarrow> config e = None \<and> response e = None"
  by (auto simp: refreshAccessToken_def split: prod.splits sum.splits
      dest: authenticate_error_plain)

lemma request_interceptor_error:
  "request_interceptor E cfg c = (Inl e, c') \<Longrightarrow> \<not> may_retry e"
  by (auto simp: request_interceptor_def Let_def may_retry_def
      split: prod.splits sum.splits if_splits dest: refreshAccessToken_error_plain)

lemma request_interceptor_retry:
  "request_interceptor E cfg c = (Inr cfg1, c') \<Longrightarrow> retry cfg1 = retry cfg"
  by (auto simp: request_interceptor_def Let_def split: prod.splits sum.splits if_splits)

lemma dispatchRequest_error:
  "dispatchRequest E cfg c = (Inl e, c') \<Longrightarrow> config e = Some cfg"
  by (auto simp: dispatchRequest_def split: http_reply.splits)

text \<open>
  \<open>this.httpClient(config)\<close> runs the chain that axios builds from the interceptors:
  request interceptor, transport, response interceptor. A rejection anywhere in the chain
  falls through to the next rejection handler, so the error handler of the response
  interceptor also receives what the request interceptor throws. That handler is
  \<^verbatim>\<open>
  async (error) => {
    const status = error.response ? error.response.status : 0;
    const requestId = error.config ? error.config.requestId : 'unknown';
    if (status === 401 && !error.config._retry) {
      error.config._retry = true;
      await this.refreshAccessToken();
      return this.httpClient(error.config);
    }
    const enhancedError = new Error(`EHR API Error (${this.vendor}): ${error.message}`);
    enhancedError.status = status;
    enhancedError.requestId = requestId;
    ...
    return Promise.reject(enhancedError);
  }
  \<close>
  The success handler returns the response as it is. The body of an error response is
  taken to be an object or a string, as axios delivers it, so that reading
  \<open>error.response.data.issue\<close> for the log does not throw.
\<close>

function httpClient ::
    "env \<Rightarrow> request_config \<Rightarrow> connector \<Rightarrow> (js_error + fhir_data) \<times> connector"
  and response_rejected ::
    "env \<Rightarrow> js_error \<Rightarrow> connector \<Rightarrow> (js_error + fhir_data) \<times> connector" where
  "httpClient E cfg c =
     (case request_interceptor E cfg c of
        (Inl error, c1) \<Rightarrow> response_rejected E error c1
      | (Inr cfg1, c1) \<Rightarrow>
          (case dispatchRequest E cfg1 c1 of
             (Inr d, c2) \<Rightarrow> (Inr d, c2)
           | (Inl error, c2) \<Rightarrow> response_rejected E error c2))"
| "response_rejected E error c =
     (let status = (case response error of Some s \<Rightarrow> s | None \<Rightarrow> 0);
          requestId = (case config error of Some cf \<Rightarrow> cfg_requestId cf | None \<Rightarrow> Some Unknown)
      in if status = 401 \<and> config error = None then (Inl (TypeError ''_retry''), c)
         else if status = 401 \<and> \<not> retry (the (config error)) then
           (case refreshAccessToken E c of
              (Inl e, c1) \<Rightarrow> (Inl e, c1)
            | (Inr _, c1) \<Rightarrow> httpClient E ((the (config error))\<lparr>retry := True\<rparr>) c1)
         else
           (Inl \<lparr>message = ''EHR API Error ('' @ vendor c @ ''): '' @ message error,
                 response = None, config = None, status = Some status, requestId = requestId\<rparr>, c))"
  by pat_completeness auto
termination
proof (relation "measure (\<lambda>x. case x of
          Inl (E, cfg, c) \<Rightarrow> (if retry cfg then 1 else 3)
        | Inr (E, error, c) \<Rightarrow> (if may_retry error then 2 else 0))", goal_cases)
  case 1
  show ?case by simp
next
  case (2 E cfg c x1 x2 error)
  then show ?case
    using request_interceptor_error[of E cfg c error x2] by auto
next
  case (3 E cfg c x1 x2 cfg1 y1 y2 error)
  then show ?case
    using request_interceptor_retry[of E cfg c cfg1 x2]
      dispatchRequest_error[of E cfg1 x2 error y2]
    by (auto simp: may_retry_def)
next
  case (4 E error c)
  then show ?case by (auto simp: may_retry_def split: option.splits)
qed

declare httpClient.simps [simp del] response_rejected.simps [simp del]

section \<open>FHIR verbs\<close>

definition uuidv4 :: "connector \<Rightarrow> request_id \<times> connector" where
  "uuidv4 c = (Uuid (uuids c), c\<lparr>uuids := Suc (uuids c)\<rparr>)"

text \<open>
  \<open>AuditService.logFhirActivity(eventType, user, resource, request, outcome)\<close>, guarded
  by \<open>process.env.HIPAA_AUDIT_ENABLED === 'true'\<close>. The service swallows its own
  failures, so the call never throws. The event \<open>AuditLogged\<close> stands for this call;
  what the service then stores is its own affair.
\<close>

definition logFhirActivity :: "env \<Rightarrow> audit_call \<Rightarrow> connector \<Rightarrow> connector" where
  "logFhirActivity E a c = (if audit_enabled E then emit (AuditLogged a) c else c)"

text \<open>
  The five verbs share one shape; \<open>search\<close> reads
  \<^verbatim>\<open>
  async search(resourceType, params = {}, options = {}) {
    try {
      const requestId = uuidv4();
      if (process.env.HIPAA_AUDIT_ENABLED === 'true') {
        await AuditService.logFhirActivity('FHIR_READ', options.user, { resourceType },
          { requestId, method: 'GET', originalUrl: `/fhir/${resourceType}` },
          { success: true });
      }
      const response = await this.httpClient.get(`/${resourceType}`, {...});
      return response.data;
    } catch (error) {
      if (process.env.HIPAA_AUDIT_ENABLED === 'true') {
        await AuditService.logFhirActivity('FHIR_READ', options.user, { resourceType },
          { requestId: error.requestId, method: 'GET', originalUrl: `/fhir/${resourceType}` },
          { success: false, message: error.message });
      }
      throw error;
    }
  }
  \<close>
  and the others differ in the event type, the HTTP method and the path only.
  \<open>fhir_verb\<close> is that shape. Query parameters, request bodies and extra headers
  travel with the request and decide nothing in the connector; they are left out.
\<close>

definition fhir_verb ::
  "env \<Rightarrow> string \<Rightarrow> string \<Rightarrow> string \<Rightarrow> string \<Rightarrow> string \<Rightarrow> connector
     \<Rightarrow> (js_error + fhir_data) \<times> connector" where
  "fhir_verb E evType resourceType auditMethod httpMethod path c =
     (let (reqId, c1) = uuidv4 c;
          c2 = logFhirActivity E
                 \<lparr>eventType = evType, audit_resourceType = resourceType,
                  audit_requestId = Some reqId, audit_method = auditMethod,
                  audit_originalUrl = ''/fhir'' @ path, outcome_success = True\<rparr> c1
      in case httpClient E \<lparr>cfg_method = httpMethod, url = path, cfg_requestId = None,
                            authorization = None, retry = False\<rparr> c2 of
           (Inr d, c3) \<Rightarrow> (Inr d, c3)
         | (Inl error, c3) \<Rightarrow>
             (Inl error,
              logFhirActivity E
                \<lparr>eventType = evType, audit_resourceType = resourceType,
                 audit_requestId = requestId error, audit_method = auditMethod,
                 audit_originalUrl = ''/fhir'' @ path, outcome_success = False\<rparr> c3))"

definition search :: "env \<Rightarrow> string \<Rightarrow> connector \<Rightarrow> (js_error + fhir_data) \<times> connector" where
  "search E resourceType c =
     fhir_verb E ''FHIR_READ'' resourceType ''GET'' ''get'' (''/'' @ resourceType) c"

definition getResource ::
  "env \<Rightarrow> string \<Rightarrow> string \<Rightarrow> connector \<Rightarrow> (js_error + fhir_data) \<times> connector" where
  "getResource E resourceType ident c =
     fhir_verb E ''FHIR_READ'' resourceType ''GET'' ''get'' (''/'' @ resourceType @ ''/'' @ ident) c"

definition createResource ::
  "env \<Rightarrow> string \<Rightarrow> connector \<Rightarrow> (js_error + fhir_data) \<times> connector" where
  "createResource E resourceType c =
     fhir_verb E ''FHIR_CREATED'' resourceType ''POST'' ''post'' (''/'' @ resourceType) c"

definition updateResource ::
  "env \<Rightarrow> string \<Rightarrow> string \<Rightarrow> connector \<Rightarrow> (js_error + fhir_data) \<times> connector" where
  "updateResource E resourceType ident c =
     fhir_verb E ''FHIR_UPDATED'' resourceType ''PUT'' ''put'' (''/'' @ resourceType @ ''/'' @ ident) c"

definition deleteResource ::
  "env \<Rightarrow> string \<Rightarrow> string \<Rightarrow> connector \<Rightarrow> (js_error + unit) \<times> connector" where
  "deleteResource E resourceType ident c =
     (case fhir_verb E ''FHIR_DELETED'' resourceType ''DELETE'' ''delete''
             (''/'' @ resourceType @ ''/'' @ ident) c of
        (Inr d, c1) \<Rightarrow> (Inr (), c1)
      | (Inl error, c1) \<Rightarrow> (Inl error, c1))"


section \<open>Epic: supported interactions\<close>

text \<open>
  \<^verbatim>\<open>
  isSupported(resourceType, operation) {
    if (!this.capabilities.length) { return true; }
    const resource = this.capabilities.find(r => r.type === resourceType);
    if (!resource) { return false; }
    return resource.interactions.includes(operation);
  }
  \<close>
\<close>

definition isSupported :: "connector \<Rightarrow> string \<Rightarrow> string \<Rightarrow> bool" where
  "isSupported c resourceType operation =
     (if length (capabilities c) = 0 then True
      else
        (case find (\<lambda>r. cap_type r = resourceType) (capabilities c) of
           None \<Rightarrow> False
         | Some resource \<Rightarrow> operation \<in> set (interactions resource)))"

text \<open>
  \<^verbatim>\<open>
  async getPatientData(patientId, resourceType, params = {}, options = {}) {
    if (!this.isSupported(resourceType, 'search-type')) {
      throw new Error(`Resource type ${resourceType} is not supported by this Epic instance`);
    }
    ...
    const results = await this.search(resourceType, searchParams, options);
    return results.entry ? results.entry.map(e => e.resource) : [];
  }
  \<close>
  The search parameters only shape the query string and are not modelled.
\<close>

definition not_supported :: "string \<Rightarrow> js_error" where
  "not_supported resourceType =
     Error (''Resource type '' @ resourceType @ '' is not supported by this Epic instance'')"

definition getPatientData ::
  "env \<Rightarrow> string \<Rightarrow> connector \<Rightarrow> (js_error + string list) \<times> connector" where
  "getPatientData E resourceType c =
     (if \<not> isSupported c resourceType ''search-type'' then (Inl (not_supported resourceType), c)
      else
        (case search E resourceType c of
           (Inl error, c1) \<Rightarrow> (Inl error, c1)
         | (Inr results, c1) \<Rightarrow>
             (Inr (case entry results of Some es \<Rightarrow> es | None \<Rightarrow> []), c1)))"


section \<open>Write-side defaulting\<close>

text \<open>
  The helpers that fill in vendor defaults work on the object that the caller passes.
  JavaScript passes objects and arrays by reference, so the model has a heap of cells,
  and a value is a primitive or a reference into the heap. A fresh object or array goes
  to the end of the heap.
\<close>

datatype jsval = Undefined | Null | Bool bool | Num int | Str string | Ref nat

datatype cell = Obj "(string \<times> jsval) list" | Arr "jsval list"

type_synonym heap = "cell list"


definition lookup_cell :: "heap \<Rightarrow> nat \<Rightarrow> cell option" where
  "lookup_cell h r = (if r < length h then Some (h ! r) else None)"



definition set_field :: "heap \<Rightarrow> nat \<Rightarrow> string \<Rightarrow> jsval \<Rightarrow> heap" where
  "set_field h r k v =
     (case lookup_cell h r of
        Some (Obj fs) \<Rightarrow> h[r := Obj (AList.update k v fs)]
      | _ \<Rightarrow> h)"














section \<open>Concurrent callers\<close>

text \<open>
  A connector is shared by all requests in flight. JavaScript runs one caller at a
  time and switches callers only at an \<open>await\<close>. The path from the request interceptor
  through \<open>refreshAccessToken\<close> and the \<open>authenticate\<close> of the Cerner connector has its
  awaits at the two token requests, \<open>axios.post\<close> of the refresh grant and \<open>axios.post\<close>
  of the client credentials. A caller is therefore at the start of the interceptor,
  waiting for the answer to one of these requests (it remembers which answer is its
  own), or done. \<open>resume\<close> runs a caller from where it waits up to its next \<open>await\<close>,
  statement by statement as in \<open>request_interceptor\<close>, \<open>refreshAccessToken\<close> and
  \<open>cerner_authenticate\<close> above, on the connector as it is at that moment.
\<close>

datatype caller =
    Start
  | AwaitRefreshGrant nat
  | AwaitAuthenticate bool nat
  | Ready
  | Failed js_error

text \<open>\<open>this.authenticate()\<close> up to its \<open>await\<close>; the flag tells whether the call comes from
  the \<open>catch\<close> block of \<open>refreshAccessToken\<close>.\<close>

definition begin_authenticate :: "bool \<Rightarrow> connector \<Rightarrow> caller \<times> connector" where
  "begin_authenticate in_catch c =
     (let c0 = emit AuthenticateCalled c
      in (AwaitAuthenticate in_catch (count_events is_TokenPost c0),
          emit (TokenPost ClientCredentials) c0))"

definition resume :: "env \<Rightarrow> caller \<Rightarrow> connector \<Rightarrow> caller \<times> connector" where
  "resume E p c =
     (case p of
        Start \<Rightarrow>
          (let c1 = c\<lparr>requestCounter := Suc (requestCounter c)\<rparr>;
               (now, c2) = Date_now E c1;
               (expired, c3) = isTokenExpired E c2
           in if expired then
                (if \<not> truthy_str (refreshToken c3) then begin_authenticate False c3
                 else (AwaitRefreshGrant (count_events is_TokenPost c3),
                       emit (TokenPost RefreshTokenGrant) c3))
              else (Ready, c3))
      | AwaitRefreshGrant n \<Rightarrow>
          (case token_reply E n of
             Resolved d \<Rightarrow>
               (let (now, c1) = Date_now E c
                in (Ready, c1\<lparr>accessToken := Some (access_token d),
                               refreshToken := (if truthy_str (refresh_token d)
                                                then refresh_token d else refreshToken c),
                               tokenExpiry := Some (now + expires_in d * 1000)\<rparr>))
           | Rejected msg st \<Rightarrow> begin_authenticate True (clear_tokens c))
      | AwaitAuthenticate in_catch n \<Rightarrow>
          (case token_reply E n of
             Resolved d \<Rightarrow>
               (let (now, c1) = Date_now E c
                in (Ready, c1\<lparr>accessToken := Some (access_token d),
                               tokenExpiry := Some (now + expires_in d * 1000)\<rparr>))
           | Rejected msg st \<Rightarrow>
               if in_catch then (Failed (Error (''Cerner authentication failed: '' @ msg)), c)
               else begin_authenticate True (clear_tokens c))
      | Ready \<Rightarrow> (Ready, c)
      | Failed e \<Rightarrow> (Failed e, c))"

text \<open>The callers in flight and the connector they share; the scheduler lets one caller
  at a time run to its next \<open>await\<close>.\<close>

definition step :: "env \<Rightarrow> caller list \<times> connector \<Rightarrow> nat \<Rightarrow> caller list \<times> connector" where
  "step E s i =
     (case s of (ps, c) \<Rightarrow>
        if i < length ps then (let (p, c') = resume E (ps ! i) c in (ps[i := p], c'))
        else s)"

definition run :: "env \<Rightarrow> nat list \<Rightarrow> caller list \<times> connector \<Rightarrow> caller list \<times> connector" where
  "run E schedule s = foldl (step E) s schedule"


section \<open>Concrete connectors\<close>

text \<open>The constructors: every token field starts as \<open>null\<close>, the counter at zero, the
  capability list empty.\<close>

definition new_connector :: "connector_class \<Rightarrow> string \<Rightarrow> connector" where
  "new_connector k v =
     \<lparr>cls = k, vendor = v, accessToken = None, tokenExpiry = None, refreshToken = None,
      requestCounter = 0, epicMetadata = None, capabilities = [], trace = [], ticks = 0,
      uuids = 0\<rparr>"

definition new_CernerConnector :: connector where
  "new_CernerConnector = new_connector CernerConnector ''Cerner''"

definition new_EpicConnector :: connector where
  "new_EpicConnector = new_connector EpicConnector ''Epic''"

text \<open>An environment in which nothing answers, at time zero, with auditing on.\<close>

definition offline :: env where
  "offline =
     \<lparr>token_reply = (\<lambda>n. Rejected ''connect ECONNREFUSED'' None),
      metadata_reply = (\<lambda>n. Rejected ''connect ECONNREFUSED'' None),
      fhir_reply = (\<lambda>n. Rejected ''connect ECONNREFUSED'' None),
      clock = (\<lambda>n. 0), audit_enabled = True\<rparr>"

text \<open>The defining equations, collected for running the model on concrete inputs.\<close>

lemmas run_defs =
  new_connector_def new_CernerConnector_def new_EpicConnector_def offline_def
  truthy_str_def truthy_num_def Error_def TypeError_def
  is_TokenPost_def is_MetadataGet_def is_FhirSend_def is_AuditLogged_def count_events_def emit_def
  Date_now_def post_token_def get_metadata_def isTokenExpired_def
  cerner_authenticate_def extract_capabilities_def fetchCapabilityStatement_def oauth_uris_def
  token_url_of_def unable_to_determine_def epic_authenticate_try_def epic_authenticate_def
  authenticate_def clear_tokens_def refreshAccessToken_try_def refreshAccessToken_def
  request_interceptor_def dispatchRequest_def httpClient.simps response_rejected.simps
  uuidv4_def logFhirActivity_def fhir_verb_def search_def getResource_def createResource_def
  updateResource_def deleteResource_def isSupported_def not_supported_def getPatientData_def
  Let_def

section \<open>The expiry check\<close>

text \<open>
  Claim C4. The expiry check answers true when no access token is set, and otherwise
  exactly when the current time has reached the expiry minus the buffer of 60 seconds
  (at the edge of the buffer the token counts as expired). It changes nothing in the
  connector: apart from the clock having been read, the state after the check is the
  state before. A token without an expiry, which the token operations never produce,
  counts as expired as well.
\<close>

theorem isTokenExpired_buffer:
  "(fst (isTokenExpired E c) \<longleftrightarrow>
      (\<not> truthy_str (accessToken c) \<or>
       (case tokenExpiry c of
          None \<Rightarrow> True
        | Some expiresAt \<Rightarrow> int (clock E (ticks c)) \<ge> expiresAt - 60 * 1000)))
   \<and> (snd (isTokenExpired E c))\<lparr>ticks := ticks c\<rparr> = c"
  by (auto simp: isTokenExpired_def truthy_num_def Date_now_def Let_def split: option.splits)

theorem isTokenExpired_buffer_witness:
  "fst (isTokenExpired (offline\<lparr>clock := (\<lambda>n. 40000)\<rparr>)
          (new_CernerConnector\<lparr>accessToken := Some ''t1'', tokenExpiry := Some 100000\<rparr>))
   \<and> \<not> fst (isTokenExpired (offline\<lparr>clock := (\<lambda>n. 39999)\<rparr>)
          (new_CernerConnector\<lparr>accessToken := Some ''t1'', tokenExpiry := Some 100000\<rparr>))"
  using
    isTokenExpired_buffer [of "offline\<lparr>clock := (\<lambda>n. 40000)\<rparr>"
      "new_CernerConnector\<lparr>accessToken := Some ''t1'', tokenExpiry := Some 100000\<rparr>"]
    isTokenExpired_buffer [of "offline\<lparr>clock := (\<lambda>n. 39999)\<rparr>"
      "new_CernerConnector\<lparr>accessToken := Some ''t1'', tokenExpiry := Some 100000\<rparr>"]
  by (simp add: truthy_str_def)

section \<open>Supported interactions before and after discovery\<close>

text \<open>The position of the first entry of the capability list for a resource type.\<close>

definition first_entry :: "capability list \<Rightarrow> string \<Rightarrow> nat \<Rightarrow> bool" where
  "first_entry caps resourceType i =
     (i < length caps \<and> cap_type (caps ! i) = resourceType
      \<and> list_all (\<lambda>r. cap_type r \<noteq> resourceType) (take i caps))"

lemma find_first_entry:
  "find (\<lambda>r. cap_type r = rt) caps = Some x \<longleftrightarrow> (\<exists>i. first_entry caps rt i \<and> x = caps ! i)"
proof -
  have "list_all (\<lambda>r. cap_type r \<noteq> rt) (take i caps) \<longleftrightarrow> (\<forall>j<i. cap_type (caps ! j) \<noteq> rt)"
    if "i < length caps" for i
    using that by (auto simp: list_all_length)
  then show ?thesis
    unfolding find_Some_iff first_entry_def by auto
qed

lemma distinct_first_entry:
  assumes "distinct (map cap_type caps)" and "r \<in> set caps"
  shows "\<exists>i. first_entry caps (cap_type r) i \<and> caps ! i = r"
proof -
  from assms(2) obtain i where i: "i < length caps" "caps ! i = r"
    by (auto simp: in_set_conv_nth)
  have "cap_type (caps ! j) \<noteq> cap_type r" if "j < i" for j
  proof
    assume eq: "cap_type (caps ! j) = cap_type r"
    have "j < length (map cap_type caps)" "i < length (map cap_type caps)" "j \<noteq> i"
      using that i by simp_all
    with assms(1) have "map cap_type caps ! j \<noteq> map cap_type caps ! i"
      unfolding distinct_conv_nth by blast
    with that i eq show False
      by simp
  qed
  with i show ?thesis
    by (auto simp: first_entry_def list_all_length)
qed

lemma first_entry_unique:
  "first_entry caps rt i \<Longrightarrow> first_entry caps rt j \<Longrightarrow> i = j"
  unfolding first_entry_def list_all_length
  by (metis length_take less_imp_le_nat linorder_neqE_nat min.absorb2 nth_take order_less_trans)

lemma isSupported_loaded:
  assumes "capabilities c \<noteq> []"
  shows "isSupported c rt op \<longleftrightarrow>
      (\<exists>i. first_entry (capabilities c) rt i \<and> op \<in> set (interactions (capabilities c ! i)))"
proof (cases "find (\<lambda>r. cap_type r = rt) (capabilities c)")
  case None
  have "\<not> first_entry (capabilities c) rt i" for i
  proof
    assume "first_entry (capabilities c) rt i"
    then have "find (\<lambda>r. cap_type r = rt) (capabilities c) = Some (capabilities c ! i)"
      by (subst find_first_entry) blast
    with None show False by simp
  qed
  moreover have "\<not> isSupported c rt op"
    using None assms by (simp add: isSupported_def)
  ultimately show ?thesis by blast
next
  case (Some x)
  then obtain i where i: "first_entry (capabilities c) rt i" "x = capabilities c ! i"
    by (subst (asm) find_first_entry) blast
  have "isSupported c rt op \<longleftrightarrow> op \<in> set (interactions (capabilities c ! i))"
    using Some assms i(2) by (simp add: isSupported_def)
  moreover have "j = i" if "first_entry (capabilities c) rt j" for j
    using that i(1) by (rule first_entry_unique)
  ultimately show ?thesis
    using i(1) by blast
qed

lemma isSupported_distinct:
  assumes ne: "capabilities c \<noteq> []" and d: "distinct (map cap_type (capabilities c))"
  shows "isSupported c rt op \<longleftrightarrow>
      (\<exists>r \<in> set (capabilities c). cap_type r = rt \<and> op \<in> set (interactions r))"
proof
  assume "isSupported c rt op"
  then obtain i where i: "first_entry (capabilities c) rt i"
    "op \<in> set (interactions (capabilities c ! i))"
    unfolding isSupported_loaded[OF ne] by blast
  from i(1) have "capabilities c ! i \<in> set (capabilities c)" "cap_type (capabilities c ! i) = rt"
    by (simp_all add: first_entry_def)
  with i(2) show "\<exists>r \<in> set (capabilities c). cap_type r = rt \<and> op \<in> set (interactions r)"
    by blast
next
  assume "\<exists>r \<in> set (capabilities c). cap_type r = rt \<and> op \<in> set (interactions r)"
  then obtain r where r: "r \<in> set (capabilities c)" "cap_type r = rt" "op \<in> set (interactions r)"
    by blast
  from distinct_first_entry[OF d r(1)] r(2) obtain i where
    "first_entry (capabilities c) rt i" "capabilities c ! i = r"
    by blast
  with r(3) show "isSupported c rt op"
    unfolding isSupported_loaded[OF ne] by blast
qed

text \<open>
  Claim C10, as amended. While the capability list of the Epic connector is empty,
  \<open>isSupported\<close> answers true for every resource type and operation. Once the list is
  not empty, it answers true exactly when the first entry of the list for the resource
  type has the operation among its interactions; where no two entries share a resource
  type, that is exactly when some entry for the resource type has the operation.
  Consequently, with an empty capability list \<open>getPatientData\<close> passes its support check
  and hands on what \<open>search\<close> returns.
\<close>

theorem isSupported_first_entry:
  "(capabilities c = [] \<longrightarrow> isSupported c rt op)
   \<and> (capabilities c \<noteq> [] \<longrightarrow>
        (isSupported c rt op \<longleftrightarrow>
           (\<exists>i. first_entry (capabilities c) rt i
                \<and> op \<in> set (interactions (capabilities c ! i)))))
   \<and> (capabilities c \<noteq> [] \<and> distinct (map cap_type (capabilities c)) \<longrightarrow>
        (isSupported c rt op \<longleftrightarrow>
           (\<exists>r \<in> set (capabilities c). cap_type r = rt \<and> op \<in> set (interactions r))))
   \<and> (capabilities c = [] \<longrightarrow>
        getPatientData E rt c =
          (case search E rt c of
             (Inl error, c1) \<Rightarrow> (Inl error, c1)
           | (Inr results, c1) \<Rightarrow>
               (Inr (case entry results of Some es \<Rightarrow> es | None \<Rightarrow> []), c1)))"
proof (intro conjI impI)
  assume "capabilities c = []"
  then show "isSupported c rt op"
    by (simp add: isSupported_def)
next
  assume "capabilities c \<noteq> []"
  then show "isSupported c rt op \<longleftrightarrow>
      (\<exists>i. first_entry (capabilities c) rt i \<and> op \<in> set (interactions (capabilities c ! i)))"
    by (rule isSupported_loaded)
next
  assume "capabilities c \<noteq> [] \<and> distinct (map cap_type (capabilities c))"
  then show "isSupported c rt op \<longleftrightarrow>
      (\<exists>r \<in> set (capabilities c). cap_type r = rt \<and> op \<in> set (interactions r))"
    using isSupported_distinct by blast
next
  assume "capabilities c = []"
  then show "getPatientData E rt c =
          (case search E rt c of
             (Inl error, c1) \<Rightarrow> (Inl error, c1)
           | (Inr results, c1) \<Rightarrow>
               (Inr (case entry results of Some es \<Rightarrow> es | None \<Rightarrow> []), c1))"
    by (simp add: getPatientData_def isSupported_def)
qed

text \<open>A capability list that names the resource type \<open>Patient\<close> twice.\<close>

definition duplicated_capabilities :: "capability list" where
  "duplicated_capabilities =
     [\<lparr>cap_type = ''Patient'', interactions = [''read''], searchParams = []\<rparr>,
      \<lparr>cap_type = ''Patient'', interactions = [''search-type''], searchParams = []\<rparr>]"

theorem isSupported_first_entry_witness:
  "isSupported new_EpicConnector ''Observation'' ''search-type''
   \<and> \<not> isSupported (new_EpicConnector\<lparr>capabilities := duplicated_capabilities\<rparr>)
         ''Observation'' ''read''
   \<and> isSupported (new_EpicConnector\<lparr>capabilities := [hd duplicated_capabilities]\<rparr>)
         ''Patient'' ''read''
   \<and> fst (getPatientData offline ''Observation'' new_EpicConnector)
       \<noteq> Inl (not_supported ''Observation'')"
proof -
  have 1: "capabilities new_EpicConnector = []"
    by (simp add: new_EpicConnector_def new_connector_def)
  have 2: "capabilities (new_EpicConnector\<lparr>capabilities := duplicated_capabilities\<rparr>) \<noteq> []"
    by (simp add: duplicated_capabilities_def)
  have 3: "capabilities (new_EpicConnector\<lparr>capabilities := [hd duplicated_capabilities]\<rparr>) \<noteq> [] \<and>
     distinct (map cap_type
       (capabilities (new_EpicConnector\<lparr>capabilities := [hd duplicated_capabilities]\<rparr>)))"
    by (simp add: duplicated_capabilities_def)
  have a: "isSupported new_EpicConnector ''Observation'' ''search-type''"
    using isSupported_first_entry
      [of new_EpicConnector "''Observation''" "''search-type''" offline] 1
    by blast
  have "\<forall>r \<in> set duplicated_capabilities. cap_type r \<noteq> ''Observation''"
    by (simp add: duplicated_capabilities_def)
  moreover have "duplicated_capabilities ! i \<in> set duplicated_capabilities
      \<and> cap_type (duplicated_capabilities ! i) = ''Observation''"
    if "first_entry duplicated_capabilities ''Observation'' i" for i
    using that by (simp add: first_entry_def)
  ultimately have "\<not> first_entry duplicated_capabilities ''Observation'' i" for i
    by blast
  then have b: "\<not> isSupported (new_EpicConnector\<lparr>capabilities := duplicated_capabilities\<rparr>)
         ''Observation'' ''read''"
    using isSupported_first_entry
      [of "new_EpicConnector\<lparr>capabilities := duplicated_capabilities\<rparr>"
          "''Observation''" "''read''" offline] 2
    by simp
  have "isSupported (new_EpicConnector\<lparr>capabilities := [hd duplicated_capabilities]\<rparr>)
         ''Patient'' ''read'' \<longleftrightarrow>
        (\<exists>r \<in> set (capabilities
                  (new_EpicConnector\<lparr>capabilities := [hd duplicated_capabilities]\<rparr>)).
            cap_type r = ''Patient'' \<and> ''read'' \<in> set (interactions r))"
    using isSupported_first_entry
      [of "new_EpicConnector\<lparr>capabilities := [hd duplicated_capabilities]\<rparr>"
          "''Patient''" "''read''" offline] 3
    by blast
  then have c: "isSupported (new_EpicConnector\<lparr>capabilities := [hd duplicated_capabilities]\<rparr>)
         ''Patient'' ''read''"
    by (simp add: duplicated_capabilities_def)
  have "fst (search offline ''Observation'' new_EpicConnector)
          \<noteq> Inl (not_supported ''Observation'')"
    by (simp add: run_defs cong: prod.case_cong_weak)
  then have d: "fst (getPatientData offline ''Observation'' new_EpicConnector)
       \<noteq> Inl (not_supported ''Observation'')"
    using isSupported_first_entry
      [of new_EpicConnector "''Observation''" "''search-type''" offline] 1
    by (simp split: prod.splits sum.splits)
  from a b c d show ?thesis by blast
qed

text \<open>
  As first stated, the claim lets any entry for the resource type decide. With
  \<open>Patient\<close> listed twice, the second entry offers \<open>search-type\<close>, yet the first entry
  decides and the answer is false.
\<close>

theorem isSupported_any_entry_counterexample:
  "capabilities (new_EpicConnector\<lparr>capabilities := duplicated_capabilities\<rparr>) \<noteq> []
   \<and> (\<exists>r \<in> set (capabilities (new_EpicConnector\<lparr>capabilities := duplicated_capabilities\<rparr>)).
         cap_type r = ''Patient'' \<and> ''search-type'' \<in> set (interactions r))
   \<and> \<not> isSupported (new_EpicConnector\<lparr>capabilities := duplicated_capabilities\<rparr>)
         ''Patient'' ''search-type''"
  by (simp add: duplicated_capabilities_def isSupported_def)

section \<open>Token state across the token operations\<close>




definition fully_cleared :: "connector \<Rightarrow> bool" where
  "fully_cleared c = (accessToken c = None \<and> refreshToken c = None \<and> tokenExpiry c = None)"





lemma fully_cleared_clear_tokens: "fully_cleared (clear_tokens c)"
  by (simp add: fully_cleared_def clear_tokens_def)







text \<open>A Cerner connector whose token endpoint grants \<open>t1\<close> for an hour.\<close>

definition granting :: env where
  "granting = offline\<lparr>token_reply :=
     (\<lambda>n. Resolved \<lparr>access_token = ''t1'', refresh_token = None, expires_in = 3600\<rparr>)\<rparr>"


section \<open>Refresh is best effort\<close>

definition is_AuthenticateCalled :: "event \<Rightarrow> bool" where
  "is_AuthenticateCalled e = (case e of AuthenticateCalled \<Rightarrow> True | _ \<Rightarrow> False)"

text \<open>The events an operation adds to the trace.\<close>

definition new_events :: "connector \<Rightarrow> connector \<Rightarrow> event list" where
  "new_events c c' = drop (length (trace c)) (trace c')"

definition discovery_event :: "event \<Rightarrow> bool" where
  "discovery_event e = (e = MetadataGet \<or> e = TokenPost ClientCredentials)"

lemma fetchCapabilityStatement_trace:
  "fetchCapabilityStatement E c = (r, c') \<Longrightarrow> trace c' = trace c @ [MetadataGet]"
  by (auto simp: fetchCapabilityStatement_def get_metadata_def emit_def Let_def
      split: http_reply.splits sum.splits)

lemma cerner_authenticate_trace:
  "cerner_authenticate E c = (r, c') \<Longrightarrow> trace c' = trace c @ [TokenPost ClientCredentials]"
  by (auto simp: cerner_authenticate_def post_token_def emit_def Date_now_def Let_def
      split: http_reply.splits)

lemma epic_authenticate_try_trace:
  "epic_authenticate_try E c = (r, c') \<Longrightarrow>
     \<exists>new. trace c' = trace c @ new \<and> list_all discovery_event new"
proof -
  assume run: "epic_authenticate_try E c = (r, c')"
  obtain r1 c1 where f: "(if epicMetadata c = None then fetchCapabilityStatement E c
            else (Inr (the (epicMetadata c)), c)) = (r1, c1)"
    by (cases "if epicMetadata c = None then fetchCapabilityStatement E c
            else (Inr (the (epicMetadata c)), c)") blast
  then have t1: "trace c1 = trace c \<or> trace c1 = trace c @ [MetadataGet]"
    by (auto split: if_splits dest: fetchCapabilityStatement_trace)
  from run f have "trace c' = trace c1 \<or> trace c' = trace c1 @ [TokenPost ClientCredentials]"
    by (auto simp: epic_authenticate_try_def post_token_def emit_def Date_now_def Let_def
        split: http_reply.splits sum.splits option.splits if_splits)
  with t1 show ?thesis
    by (auto simp: discovery_event_def)
qed

lemma authenticate_trace:
  "authenticate E c = (r, c') \<Longrightarrow>
     \<exists>new. trace c' = trace c @ AuthenticateCalled # new \<and> list_all discovery_event new"
proof -
  assume run: "authenticate E c = (r, c')"
  have e: "trace (emit AuthenticateCalled c) = trace c @ [AuthenticateCalled]"
    by (simp add: emit_def)
  show ?thesis
  proof (cases "cls c")
    case EhrConnector
    with run e show ?thesis by (auto simp: authenticate_def Let_def)
  next
    case EpicConnector
    with run have "epic_authenticate E (emit AuthenticateCalled c) = (r, c')"
      by (simp add: authenticate_def Let_def)
    then obtain r0 where "epic_authenticate_try E (emit AuthenticateCalled c) = (r0, c')"
      by (auto simp: epic_authenticate_def split: prod.splits sum.splits)
    from epic_authenticate_try_trace[OF this] e show ?thesis
      by auto
  next
    case CernerConnector
    with run have "cerner_authenticate E (emit AuthenticateCalled c) = (r, c')"
      by (simp add: authenticate_def Let_def)
    from cerner_authenticate_trace[OF this] e show ?thesis
      by (auto simp: discovery_event_def)
  qed
qed

lemma discovery_event_counts:
  "list_all discovery_event new \<Longrightarrow>
     filter is_AuthenticateCalled new = [] \<and> TokenPost RefreshTokenGrant \<notin> set new"
  by (induction new) (auto simp: discovery_event_def is_AuthenticateCalled_def)

lemma authenticate_count:
  "authenticate E c = (r, c') \<Longrightarrow>
     count_events is_AuthenticateCalled c' = Suc (count_events is_AuthenticateCalled c)"
  by (auto simp: count_events_def is_AuthenticateCalled_def
      dest!: authenticate_trace dest: discovery_event_counts)

lemma authenticate_no_refresh_grant:
  "authenticate E c = (r, c') \<Longrightarrow> TokenPost RefreshTokenGrant \<notin> set (new_events c c')"
  by (auto simp: new_events_def dest!: authenticate_trace dest: discovery_event_counts)

lemma clear_tokens_trace [simp]: "trace (clear_tokens c) = trace c"
  by (simp add: clear_tokens_def)

lemma new_events_append:
  "trace c1 = trace c @ xs \<Longrightarrow> trace c2 = trace c1 @ ys \<Longrightarrow> new_events c c2 = xs @ ys"
  by (simp add: new_events_def)

text \<open>
  Claim C3. Without a stored refresh token, refreshing is a call of \<open>authenticate\<close>: no
  refresh grant is posted, and where that call succeeds the refresh has succeeded. With
  a refresh token, when the refresh request itself is rejected, the token state is
  cleared entirely and \<open>authenticate\<close> is called once on the cleared state; the outcome
  of that call is the outcome of the refresh. In every case a refresh that reports
  failure has seen both its first attempt and the \<open>authenticate\<close> that followed fail.
\<close>

theorem refresh_best_effort:
  "(\<not> truthy_str (refreshToken c) \<longrightarrow>
       refreshAccessToken_try E c = authenticate E c
     \<and> TokenPost RefreshTokenGrant \<notin> set (new_events c (snd (refreshAccessToken E c)))
     \<and> (\<forall>u c1. authenticate E c = (Inr u, c1) \<longrightarrow> refreshAccessToken E c = (Inr u, c1)))
   \<and> (truthy_str (refreshToken c)
        \<and> token_reply E (count_events is_TokenPost c) = Rejected msg st \<longrightarrow>
       refreshAccessToken E c
         = authenticate E (clear_tokens (emit (TokenPost RefreshTokenGrant) c))
     \<and> fully_cleared (clear_tokens (emit (TokenPost RefreshTokenGrant) c))
     \<and> count_events is_AuthenticateCalled (snd (refreshAccessToken E c))
         = Suc (count_events is_AuthenticateCalled c))
   \<and> (\<forall>e c'. refreshAccessToken E c = (Inl e, c') \<longrightarrow>
        (\<exists>e1 c1. refreshAccessToken_try E c = (Inl e1, c1)
                \<and> authenticate E (clear_tokens c1) = (Inl e, c')))"
proof (intro conjI impI allI)
  assume "\<not> truthy_str (refreshToken c)"
  then show "refreshAccessToken_try E c = authenticate E c"
    by (simp add: refreshAccessToken_try_def)
next
  assume no: "\<not> truthy_str (refreshToken c)"
  obtain r1 c1 where a1: "authenticate E c = (r1, c1)"
    by (cases "authenticate E c") blast
  from authenticate_trace[OF a1] obtain n1 where
    n1: "trace c1 = trace c @ AuthenticateCalled # n1" "list_all discovery_event n1"
    by blast
  show "TokenPost RefreshTokenGrant \<notin> set (new_events c (snd (refreshAccessToken E c)))"
  proof (cases r1)
    case (Inr u)
    with no a1 have "refreshAccessToken E c = (Inr u, c1)"
      by (simp add: refreshAccessToken_def refreshAccessToken_try_def)
    with authenticate_no_refresh_grant[OF a1] show ?thesis by simp
  next
    case (Inl e1)
    obtain r2 c2 where a2: "authenticate E (clear_tokens c1) = (r2, c2)"
      by (cases "authenticate E (clear_tokens c1)") blast
    from authenticate_trace[OF a2] obtain n2 where
      n2: "trace c2 = trace c1 @ AuthenticateCalled # n2" "list_all discovery_event n2"
      by auto
    from Inl no a1 a2 have "refreshAccessToken E c = (r2, c2)"
      by (simp add: refreshAccessToken_def refreshAccessToken_try_def)
    moreover have "new_events c c2 = (AuthenticateCalled # n1) @ (AuthenticateCalled # n2)"
      using n1(1) n2(1) by (rule new_events_append)
    ultimately show ?thesis
      using discovery_event_counts[OF n1(2)] discovery_event_counts[OF n2(2)] by simp
  qed
next
  fix u c1
  assume "\<not> truthy_str (refreshToken c)" "authenticate E c = (Inr u, c1)"
  then show "refreshAccessToken E c = (Inr u, c1)"
    by (simp add: refreshAccessToken_def refreshAccessToken_try_def)
next
  assume h: "truthy_str (refreshToken c)
        \<and> token_reply E (count_events is_TokenPost c) = Rejected msg st"
  then show eq: "refreshAccessToken E c
         = authenticate E (clear_tokens (emit (TokenPost RefreshTokenGrant) c))"
    by (simp add: refreshAccessToken_def refreshAccessToken_try_def post_token_def)
  show "fully_cleared (clear_tokens (emit (TokenPost RefreshTokenGrant) c))"
    by (rule fully_cleared_clear_tokens)
  obtain r2 c2 where a2:
    "authenticate E (clear_tokens (emit (TokenPost RefreshTokenGrant) c)) = (r2, c2)"
    by (cases "authenticate E (clear_tokens (emit (TokenPost RefreshTokenGrant) c))") blast
  from authenticate_count[OF a2] eq a2
  show "count_events is_AuthenticateCalled (snd (refreshAccessToken E c))
         = Suc (count_events is_AuthenticateCalled c)"
    by (simp add: count_events_def emit_def clear_tokens_def is_AuthenticateCalled_def)
next
  fix e c'
  assume "refreshAccessToken E c = (Inl e, c')"
  then show "\<exists>e1 c1. refreshAccessToken_try E c = (Inl e1, c1)
                \<and> authenticate E (clear_tokens c1) = (Inl e, c')"
    by (auto simp: refreshAccessToken_def split: prod.splits sum.splits)
qed

text \<open>An Epic capability statement that names its token endpoint.\<close>

definition smart_metadata :: capability_statement where
  "smart_metadata =
     \<lparr>rest = Some
        [\<lparr>rest_security = Some (Security (Some
            [Extension oauth_uris None (Some
               [Extension ''token'' (Some ''https://fhir.epic.example/oauth2/token'') None])])),
          rest_resource = Some
            [\<lparr>res_type = ''Patient'', interaction = Some [''read'', ''search-type''],
              searchParam = None\<rparr>]\<rparr>]\<rparr>"

text \<open>An Epic connector that holds a refresh token, and a vendor that rejects the refresh
  grant but then grants fresh client credentials.\<close>

definition epic_with_refresh :: connector where
  "epic_with_refresh =
     new_EpicConnector\<lparr>accessToken := Some ''t0'', tokenExpiry := Some 1000,
       refreshToken := Some ''r0'', epicMetadata := Some smart_metadata\<rparr>"

definition refresh_rejected :: env where
  "refresh_rejected = offline\<lparr>token_reply :=
     (\<lambda>n. if n = 0 then Rejected ''Request failed with status code 400'' (Some 400)
          else Resolved \<lparr>access_token = ''t2'', refresh_token = Some ''r2'',
                         expires_in = 3600\<rparr>)\<rparr>"

theorem refresh_best_effort_witness:
  "fst (refreshAccessToken granting new_CernerConnector) = Inr ()
   \<and> trace (snd (refreshAccessToken granting new_CernerConnector))
       = [AuthenticateCalled, TokenPost ClientCredentials]
   \<and> fst (refreshAccessToken refresh_rejected epic_with_refresh) = Inr ()
   \<and> trace (snd (refreshAccessToken refresh_rejected epic_with_refresh))
       = [TokenPost RefreshTokenGrant, AuthenticateCalled, TokenPost ClientCredentials]
   \<and> accessToken (snd (refreshAccessToken refresh_rejected epic_with_refresh)) = Some ''t2''
   \<and> (\<exists>e. fst (refreshAccessToken offline epic_with_refresh) = Inl e)"
proof -
  have 1: "\<not> truthy_str (refreshToken new_CernerConnector)"
    by (simp add: run_defs)
  have 2: "authenticate granting new_CernerConnector =
      (Inr (), snd (authenticate granting new_CernerConnector))"
    by (simp add: granting_def run_defs cong: prod.case_cong_weak)
  have 3: "trace (snd (authenticate granting new_CernerConnector))
       = [AuthenticateCalled, TokenPost ClientCredentials]"
    by (simp add: granting_def run_defs cong: prod.case_cong_weak)
  have a: "refreshAccessToken granting new_CernerConnector
      = (Inr (), snd (authenticate granting new_CernerConnector))"
    using refresh_best_effort[where E = granting and c = new_CernerConnector] 1 2
    by blast
  have 4: "truthy_str (refreshToken epic_with_refresh)
     \<and> token_reply refresh_rejected (count_events is_TokenPost epic_with_refresh)
         = Rejected ''Request failed with status code 400'' (Some 400)"
    by (simp add: epic_with_refresh_def refresh_rejected_def run_defs)
  have b: "refreshAccessToken refresh_rejected epic_with_refresh
         = authenticate refresh_rejected
             (clear_tokens (emit (TokenPost RefreshTokenGrant) epic_with_refresh))"
    using refresh_best_effort[where E = refresh_rejected and c = epic_with_refresh
        and msg = "''Request failed with status code 400''" and st = "Some 400"] 4
    by blast
  have 5: "fst (authenticate refresh_rejected
             (clear_tokens (emit (TokenPost RefreshTokenGrant) epic_with_refresh))) = Inr ()"
    "trace (snd (authenticate refresh_rejected
             (clear_tokens (emit (TokenPost RefreshTokenGrant) epic_with_refresh))))
       = [TokenPost RefreshTokenGrant, AuthenticateCalled, TokenPost ClientCredentials]"
    "accessToken (snd (authenticate refresh_rejected
             (clear_tokens (emit (TokenPost RefreshTokenGrant) epic_with_refresh)))) = Some ''t2''"
    by (simp_all add: epic_with_refresh_def refresh_rejected_def smart_metadata_def run_defs
        cong: prod.case_cong_weak)
  have 6: "\<exists>e. fst (refreshAccessToken offline epic_with_refresh) = Inl e"
    by (simp add: epic_with_refresh_def smart_metadata_def run_defs cong: prod.case_cong_weak)
  from a 3 b 5 6 show ?thesis
    by simp
qed

section \<open>Epic: a capability statement without a token endpoint\<close>












section \<open>What the pipeline does to the outside world\<close>

definition is_auth_attempt :: "event \<Rightarrow> bool" where
  "is_auth_attempt e = (e = AuthenticateCalled \<or> is_TokenPost e)"

definition auth_event :: "event \<Rightarrow> bool" where
  "auth_event e = (e = AuthenticateCalled \<or> is_TokenPost e \<or> e = MetadataGet)"

definition sends :: "connector \<Rightarrow> nat" where
  "sends c = count_events is_FhirSend c"

lemma discovery_auth_event: "list_all discovery_event new \<Longrightarrow> list_all auth_event new"
  by (induction new) (auto simp: discovery_event_def auth_event_def is_TokenPost_def)

lemma attempt_auth_event: "is_auth_attempt a \<Longrightarrow> auth_event a"
  by (auto simp: is_auth_attempt_def auth_event_def)

lemma authenticate_events:
  assumes "authenticate E c = (r, c')"
  shows "\<exists>a new. trace c' = trace c @ a # new \<and> is_auth_attempt a \<and> list_all auth_event new"
proof -
  from authenticate_trace[OF assms] obtain new where
    "trace c' = trace c @ AuthenticateCalled # new" "list_all discovery_event new"
    by blast
  then show ?thesis
    by (auto simp: is_auth_attempt_def dest: discovery_auth_event)
qed

lemma refreshAccessToken_try_events:
  assumes "refreshAccessToken_try E c = (r, c')"
  shows "\<exists>a new. trace c' = trace c @ a # new \<and> is_auth_attempt a \<and> list_all auth_event new"
proof (cases "truthy_str (refreshToken c)")
  case False
  with assms have "authenticate E c = (r, c')"
    by (simp add: refreshAccessToken_try_def)
  then show ?thesis by (rule authenticate_events)
next
  case True
  with assms have "trace c' = trace c @ [TokenPost RefreshTokenGrant]"
    by (auto simp: refreshAccessToken_try_def post_token_def emit_def Date_now_def Let_def
        split: http_reply.splits)
  then show ?thesis
    by (simp add: is_auth_attempt_def is_TokenPost_def)
qed

lemma refreshAccessToken_events:
  assumes "refreshAccessToken E c = (r, c')"
  shows "\<exists>a new. trace c' = trace c @ a # new \<and> is_auth_attempt a \<and> list_all auth_event new"
proof -
  obtain r1 c1 where t: "refreshAccessToken_try E c = (r1, c1)"
    by (cases "refreshAccessToken_try E c") blast
  from refreshAccessToken_try_events[OF t] obtain a n1 where
    n1: "trace c1 = trace c @ a # n1" "is_auth_attempt a" "list_all auth_event n1"
    by blast
  show ?thesis
  proof (cases r1)
    case (Inr u)
    with assms t have "c' = c1"
      by (simp add: refreshAccessToken_def)
    with n1 show ?thesis by blast
  next
    case (Inl e1)
    with assms t have "authenticate E (clear_tokens c1) = (r, c')"
      by (simp add: refreshAccessToken_def)
    from authenticate_events[OF this] obtain b n2 where
      n2: "trace c' = trace c1 @ b # n2" "is_auth_attempt b" "list_all auth_event n2"
      by auto
    have "auth_event b"
      using n2(2) by (auto simp: is_auth_attempt_def auth_event_def)
    with n1 n2 have "trace c' = trace c @ a # (n1 @ b # n2)" "list_all auth_event (n1 @ b # n2)"
      by simp_all
    with n1(2) show ?thesis by blast
  qed
qed

text \<open>The connector as the request interceptor has it when it turns to the token: the
  request counter and the clock have advanced.\<close>

definition preflight :: "connector \<Rightarrow> connector" where
  "preflight c = c\<lparr>requestCounter := Suc (requestCounter c), ticks := Suc (ticks c)\<rparr>"

lemma request_interceptor_unauthenticated:
  assumes "\<not> truthy_str (accessToken c)"
  shows "request_interceptor E cfg c =
     (case refreshAccessToken E (preflight c) of
        (Inl e, c4) \<Rightarrow> (Inl e, c4)
      | (Inr u, c4) \<Rightarrow>
          (Inr (if truthy_str (accessToken c4)
                then cfg\<lparr>cfg_requestId :=
                           Some (EhrId (vendor c) (Suc (requestCounter c)) (int (clock E (ticks c)))),
                         authorization := Some (''Bearer '' @ the (accessToken c4))\<rparr>
                else cfg\<lparr>cfg_requestId :=
                           Some (EhrId (vendor c) (Suc (requestCounter c)) (int (clock E (ticks c))))\<rparr>),
           c4))"
  using assms
  by (simp add: request_interceptor_def Date_now_def isTokenExpired_def preflight_def Let_def
      split: prod.splits sum.splits)

lemma request_interceptor_events:
  assumes "request_interceptor E cfg c = (r, c')"
  shows "\<exists>new. trace c' = trace c @ new \<and> list_all auth_event new
           \<and> (\<not> truthy_str (accessToken c) \<longrightarrow> (\<exists>a rest. new = a # rest \<and> is_auth_attempt a))"
proof -
  let ?c2 = "preflight c"
  obtain expired c3 where x: "isTokenExpired E ?c2 = (expired, c3)"
    by (cases "isTokenExpired E ?c2") blast
  have t3: "trace c3 = trace c"
    using x by (auto simp: isTokenExpired_def Date_now_def preflight_def Let_def split: if_splits)
  have ex: "expired" if "\<not> truthy_str (accessToken c)"
    using x that by (auto simp: isTokenExpired_def preflight_def split: if_splits)
  show ?thesis
  proof (cases expired)
    case False
    with assms x have "c' = c3"
      by (auto simp: request_interceptor_def Date_now_def preflight_def Let_def)
    with t3 ex False show ?thesis by auto
  next
    case True
    obtain r4 c4 where f: "refreshAccessToken E c3 = (r4, c4)"
      by (cases "refreshAccessToken E c3") blast
    with assms x True have "c' = c4"
      by (auto simp: request_interceptor_def Date_now_def preflight_def Let_def split: sum.splits)
    with refreshAccessToken_events[OF f] t3 show ?thesis
      by (auto dest: attempt_auth_event)
  qed
qed

lemma dispatchRequest_events:
  "dispatchRequest E cfg c = (r, c') \<Longrightarrow> c' = emit (FhirSend cfg) c"
  by (auto simp: dispatchRequest_def split: http_reply.splits)

lemma response_rejected_final:
  assumes "\<not> may_retry error"
  shows "\<exists>e. response_rejected E error c = (Inl e, c)
           \<and> (config error \<noteq> None \<longrightarrow> status e = Some (case response error of Some s \<Rightarrow> s | None \<Rightarrow> 0))"
  using assms
  by (cases "config error")
     (auto simp: response_rejected.simps may_retry_def Let_def split: option.splits)

lemma sends_auth_events:
  "trace c' = trace c @ new \<Longrightarrow> list_all auth_event new \<Longrightarrow> sends c' = sends c"
proof -
  have "filter is_FhirSend new = []" if "list_all auth_event new"
    using that
    by (induction new)
       (auto simp: auth_event_def is_FhirSend_def is_TokenPost_def split: event.splits)
  then show "trace c' = trace c @ new \<Longrightarrow> list_all auth_event new \<Longrightarrow> sends c' = sends c"
    by (simp add: sends_def count_events_def)
qed

lemma sends_emit_FhirSend [simp]: "sends (emit (FhirSend cfg) c) = Suc (sends c)"
  by (simp add: sends_def count_events_def emit_def is_FhirSend_def)

lemma sends_request_interceptor:
  "request_interceptor E cfg c = (r, c') \<Longrightarrow> sends c' = sends c"
  by (auto dest!: request_interceptor_events intro: sends_auth_events)


text \<open>The error with which axios rejects a request that the server refused.\<close>

definition axios_error :: "string \<Rightarrow> nat option \<Rightarrow> request_config \<Rightarrow> js_error" where
  "axios_error msg st cfg =
     \<lparr>message = msg, response = st, config = Some cfg, status = None, requestId = None\<rparr>"

lemma httpClient_preflight_failed:
  assumes "request_interceptor E cfg c = (Inl e, c1)"
  shows "\<exists>e'. httpClient E cfg c = (Inl e', c1)"
  using assms response_rejected_final[OF request_interceptor_error[OF assms], of E c1]
  by (auto simp: httpClient.simps)

lemma httpClient_resolved:
  assumes "request_interceptor E cfg c = (Inr cfg1, c1)"
    and "fhir_reply E (sends c1) = Resolved d"
  shows "httpClient E cfg c = (Inr d, emit (FhirSend cfg1) c1)"
  using assms by (simp add: httpClient.simps dispatchRequest_def sends_def)

lemma httpClient_rejected:
  assumes "request_interceptor E cfg c = (Inr cfg1, c1)"
    and "fhir_reply E (sends c1) = Rejected msg st"
  shows "httpClient E cfg c
           = response_rejected E (axios_error msg st cfg1) (emit (FhirSend cfg1) c1)"
  using assms by (simp add: httpClient.simps dispatchRequest_def sends_def axios_error_def)

lemma response_rejected_no_retry:
  assumes "st \<noteq> Some 401 \<or> retry cfg1"
  shows "\<exists>e. response_rejected E (axios_error msg st cfg1) c = (Inl e, c)
           \<and> status e = Some (case st of Some s \<Rightarrow> s | None \<Rightarrow> 0)"
proof -
  have "\<not> may_retry (axios_error msg st cfg1)"
    using assms by (auto simp: may_retry_def axios_error_def)
  from response_rejected_final[OF this, of E c] show ?thesis
    by (auto simp: axios_error_def)
qed

lemma response_rejected_retry:
  assumes "\<not> retry cfg1"
  shows "response_rejected E (axios_error msg (Some 401) cfg1) c =
           (case refreshAccessToken E c of
              (Inl e, c1) \<Rightarrow> (Inl e, c1)
            | (Inr u, c1) \<Rightarrow> httpClient E (cfg1\<lparr>retry := True\<rparr>) c1)"
  using assms
  by (simp add: response_rejected.simps axios_error_def Let_def split: prod.splits sum.splits)

text \<open>A request that is already a retry is sent at most once, and nothing follows the
  sending.\<close>

lemma httpClient_retried:
  assumes re: "retry cfg" and run: "httpClient E cfg c = (r, c')"
  shows "(\<exists>e c1. request_interceptor E cfg c = (Inl e, c1) \<and> c' = c1 \<and> (\<exists>e'. r = Inl e'))
       \<or> (\<exists>cfg1 c1. request_interceptor E cfg c = (Inr cfg1, c1)
             \<and> c' = emit (FhirSend cfg1) c1
             \<and> (case fhir_reply E (sends c1) of
                   Resolved d \<Rightarrow> r = Inr d
                 | Rejected msg st \<Rightarrow>
                     (\<exists>e. r = Inl e \<and> status e = Some (case st of Some s \<Rightarrow> s | None \<Rightarrow> 0))))"
proof (cases "request_interceptor E cfg c")
  case (Pair r1 c1)
  show ?thesis
  proof (cases r1)
    case (Inl e)
    with Pair httpClient_preflight_failed[of E cfg c e c1] run show ?thesis
      by auto
  next
    case (Inr cfg1)
    with Pair have ri: "request_interceptor E cfg c = (Inr cfg1, c1)" by simp
    from request_interceptor_retry[OF ri] re have re1: "retry cfg1" by simp
    show ?thesis
    proof (cases "fhir_reply E (sends c1)")
      case (Resolved d)
      from httpClient_resolved[OF ri Resolved] run ri Resolved show ?thesis
        by auto
    next
      case (Rejected msg st)
      from response_rejected_no_retry[of st cfg1 E msg "emit (FhirSend cfg1) c1"] re1
        httpClient_rejected[OF ri Rejected] run ri Rejected
      show ?thesis by auto
    qed
  qed
qed




section \<open>One retry after a 401\<close>








section \<open>Authentication before use\<close>

definition pipeline_event :: "event \<Rightarrow> bool" where
  "pipeline_event e = (auth_event e \<or> is_FhirSend e)"

lemma auth_pipeline_events: "list_all auth_event new \<Longrightarrow> list_all pipeline_event new"
  by (induction new) (auto simp: pipeline_event_def)

lemma request_interceptor_pipeline:
  assumes "request_interceptor E cfg c = (r, c')"
  shows "\<exists>new. trace c' = trace c @ new \<and> list_all pipeline_event new"
  using request_interceptor_events[OF assms] by (auto dest: auth_pipeline_events)

lemma refreshAccessToken_pipeline:
  assumes "refreshAccessToken E c = (r, c')"
  shows "\<exists>new. trace c' = trace c @ new \<and> list_all pipeline_event new"
proof -
  from refreshAccessToken_events[OF assms] obtain a new where
    "trace c' = trace c @ a # new" "is_auth_attempt a" "list_all auth_event new"
    by blast
  then have "trace c' = trace c @ (a # new)" "list_all auth_event (a # new)"
    by (simp_all add: attempt_auth_event)
  then show ?thesis
    by (blast dest: auth_pipeline_events)
qed

lemma pipeline_event_FhirSend [simp]: "pipeline_event (FhirSend cfg)"
  by (simp add: pipeline_event_def is_FhirSend_def)

text \<open>Whatever follows the request interceptor only adds to the trace, and adds nothing
  but sendings and authentication traffic.\<close>

lemma httpClient_retried_after:
  assumes "retry cfg" and "httpClient E cfg c = (r, c')"
    and "request_interceptor E cfg c = (r1, c1)"
  shows "\<exists>more. trace c' = trace c1 @ more \<and> list_all pipeline_event more"
  using httpClient_retried[OF assms(1,2)] assms(3)
  by (auto simp: emit_def)

lemma httpClient_after:
  assumes run: "httpClient E cfg c = (r, c')"
    and ri: "request_interceptor E cfg c = (r1, c1)"
  shows "\<exists>more. trace c' = trace c1 @ more \<and> list_all pipeline_event more"
proof (cases "retry cfg")
  case True
  from httpClient_retried_after[OF True run ri] show ?thesis .
next
  case False
  show ?thesis
  proof (cases r1)
    case (Inl e)
    with ri httpClient_preflight_failed[of E cfg c e c1] run show ?thesis
      by auto
  next
    case (Inr cfg1)
    with ri have ri': "request_interceptor E cfg c = (Inr cfg1, c1)" by simp
    from request_interceptor_retry[OF ri'] False have re1: "\<not> retry cfg1" by simp
    show ?thesis
    proof (cases "fhir_reply E (sends c1)")
      case (Resolved d)
      from httpClient_resolved[OF ri' Resolved] run show ?thesis
        by (auto simp: emit_def)
    next
      case (Rejected msg st)
      note rej = httpClient_rejected[OF ri' Rejected]
      show ?thesis
      proof (cases "st = Some 401")
        case False
        with response_rejected_no_retry[of st cfg1 E msg "emit (FhirSend cfg1) c1"] rej run
        show ?thesis by (auto simp: emit_def)
      next
        case True
        let ?c2 = "emit (FhirSend cfg1) c1"
        obtain r3 c3 where f: "refreshAccessToken E ?c2 = (r3, c3)"
          by (cases "refreshAccessToken E ?c2") blast
        from refreshAccessToken_pipeline[OF f] obtain n3 where
          n3: "trace c3 = trace ?c2 @ n3" "list_all pipeline_event n3"
          by blast
        show ?thesis
        proof (cases r3)
          case (Inl e)
          with rej run True f response_rejected_retry[OF re1, of E msg] have "c' = c3"
            by auto
          with n3 show ?thesis
            by (auto simp: emit_def)
        next
          case (Inr u)
          with rej run True f response_rejected_retry[OF re1, of E msg]
          have again: "httpClient E (cfg1\<lparr>retry := True\<rparr>) c3 = (r, c')"
            by auto
          obtain r4 c4 where ri4: "request_interceptor E (cfg1\<lparr>retry := True\<rparr>) c3 = (r4, c4)"
            by (cases "request_interceptor E (cfg1\<lparr>retry := True\<rparr>) c3") blast
          from request_interceptor_pipeline[OF ri4] obtain n4 where
            n4: "trace c4 = trace c3 @ n4" "list_all pipeline_event n4"
            by blast
          from httpClient_retried_after[OF _ again ri4] obtain n5 where
            n5: "trace c' = trace c4 @ n5" "list_all pipeline_event n5"
            by auto
          from n3 n4 n5 have "trace c' = trace c1 @ (FhirSend cfg1 # n3 @ n4 @ n5)"
            "list_all pipeline_event (FhirSend cfg1 # n3 @ n4 @ n5)"
            by (simp_all add: emit_def)
          then show ?thesis by blast
        qed
      qed
    qed
  qed
qed

lemma httpClient_pipeline:
  assumes "httpClient E cfg c = (r, c')"
  shows "\<exists>new. trace c' = trace c @ new \<and> list_all pipeline_event new"
proof -
  obtain r1 c1 where ri: "request_interceptor E cfg c = (r1, c1)"
    by (cases "request_interceptor E cfg c") blast
  from request_interceptor_pipeline[OF ri] obtain n1 where
    "trace c1 = trace c @ n1" "list_all pipeline_event n1" by blast
  moreover from httpClient_after[OF assms ri] obtain n2 where
    "trace c' = trace c1 @ n2" "list_all pipeline_event n2" by blast
  ultimately have "trace c' = trace c @ (n1 @ n2)" "list_all pipeline_event (n1 @ n2)"
    by simp_all
  then show ?thesis by blast
qed

text \<open>The first event of a call made without an access token is an authentication
  attempt; if the refresh it stands for fails, nothing is sent.\<close>

lemma httpClient_unauthenticated:
  assumes no: "\<not> truthy_str (accessToken c)" and run: "httpClient E cfg c = (r, c')"
  shows "(\<exists>a rest. new_events c c' = a # rest \<and> is_auth_attempt a)
       \<and> (\<forall>e ca. refreshAccessToken E (preflight c) = (Inl e, ca) \<longrightarrow>
            c' = ca \<and> sends c' = sends c \<and> (\<exists>e'. r = Inl e'))"
proof -
  obtain r1 c1 where ri: "request_interceptor E cfg c = (r1, c1)"
    by (cases "request_interceptor E cfg c") blast
  from request_interceptor_events[OF ri] no obtain a rest where
    n1: "trace c1 = trace c @ a # rest" "is_auth_attempt a"
    by auto
  from httpClient_after[OF run ri] obtain more where "trace c' = trace c1 @ more"
    by blast
  with n1 have first: "\<exists>a rest. new_events c c' = a # rest \<and> is_auth_attempt a"
    by (auto simp: new_events_def)
  have failed: "c' = ca \<and> sends c' = sends c \<and> (\<exists>e'. r = Inl e')"
    if f: "refreshAccessToken E (preflight c) = (Inl e, ca)" for e ca
  proof -
    from f have "request_interceptor E cfg c = (Inl e, ca)"
      by (simp add: request_interceptor_unauthenticated[OF no])
    from httpClient_preflight_failed[OF this] run sends_request_interceptor[OF this]
    show ?thesis by auto
  qed
  from first failed show ?thesis by blast
qed


text \<open>The request that a verb hands to \<open>httpClient\<close>, the audit record it writes, and the
  connector as it is when the verb calls \<open>httpClient\<close>.\<close>

definition verb_request :: "string \<Rightarrow> string \<Rightarrow> request_config" where
  "verb_request httpMethod path =
     \<lparr>cfg_method = httpMethod, url = path, cfg_requestId = None, authorization = None,
      retry = False\<rparr>"

definition audit_entry ::
  "string \<Rightarrow> string \<Rightarrow> string \<Rightarrow> string \<Rightarrow> request_id option \<Rightarrow> bool \<Rightarrow> audit_call" where
  "audit_entry evType resourceType auditMethod path rid ok =
     \<lparr>eventType = evType, audit_resourceType = resourceType, audit_requestId = rid,
      audit_method = auditMethod, audit_originalUrl = ''/fhir'' @ path, outcome_success = ok\<rparr>"

definition verb_entry ::
  "env \<Rightarrow> string \<Rightarrow> string \<Rightarrow> string \<Rightarrow> string \<Rightarrow> connector \<Rightarrow> connector" where
  "verb_entry E evType resourceType auditMethod path c =
     logFhirActivity E
       (audit_entry evType resourceType auditMethod path (Some (Uuid (uuids c))) True)
       (c\<lparr>uuids := Suc (uuids c)\<rparr>)"

lemma fhir_verb_unfold:
  "fhir_verb E ev rt am hm path c =
     (case httpClient E (verb_request hm path) (verb_entry E ev rt am path c) of
        (Inr d, c3) \<Rightarrow> (Inr d, c3)
      | (Inl error, c3) \<Rightarrow>
          (Inl error, logFhirActivity E (audit_entry ev rt am path (requestId error) False) c3))"
  by (simp add: fhir_verb_def uuidv4_def verb_request_def audit_entry_def verb_entry_def Let_def
      split: prod.splits sum.splits)

definition audit_events :: "env \<Rightarrow> audit_call \<Rightarrow> event list" where
  "audit_events E a = (if audit_enabled E then [AuditLogged a] else [])"

lemma logFhirActivity_trace: "trace (logFhirActivity E a c) = trace c @ audit_events E a"
  by (simp add: logFhirActivity_def audit_events_def emit_def)

lemma verb_entry_trace:
  "trace (verb_entry E ev rt am path c)
     = trace c @ audit_events E (audit_entry ev rt am path (Some (Uuid (uuids c))) True)"
  by (simp add: verb_entry_def logFhirActivity_trace)

lemma verb_entry_accessToken [simp]:
  "accessToken (verb_entry E ev rt am path c) = accessToken c"
  by (simp add: verb_entry_def logFhirActivity_def emit_def)

text \<open>The shape of what a verb adds to the trace: its opening audit record, the
  traffic of the pipeline, and on failure its closing audit record.\<close>

lemma fhir_verb_trace:
  assumes "fhir_verb E ev rt am hm path c = (r, c')"
  shows "\<exists>c3. httpClient E (verb_request hm path) (verb_entry E ev rt am path c) = (r, c3)
           \<and> new_events c c' =
               audit_events E (audit_entry ev rt am path (Some (Uuid (uuids c))) True)
               @ new_events (verb_entry E ev rt am path c) c3
               @ (case r of Inr d \<Rightarrow> []
                  | Inl error \<Rightarrow> audit_events E (audit_entry ev rt am path (requestId error) False))
           \<and> list_all pipeline_event (new_events (verb_entry E ev rt am path c) c3)
           \<and> sends c' = sends (verb_entry E ev rt am path c)
               + length (filter is_FhirSend (new_events (verb_entry E ev rt am path c) c3))
           \<and> sends (verb_entry E ev rt am path c) = sends c"
proof -
  let ?c2 = "verb_entry E ev rt am path c"
  obtain r3 c3 where h: "httpClient E (verb_request hm path) ?c2 = (r3, c3)"
    by (cases "httpClient E (verb_request hm path) ?c2") blast
  from httpClient_pipeline[OF h] obtain new where
    new: "trace c3 = trace ?c2 @ new" "list_all pipeline_event new"
    by blast
  then have ne: "new_events ?c2 c3 = new"
    by (simp add: new_events_def)
  have audit_no_send: "filter is_FhirSend (audit_events E a) = []" for a
    by (simp add: audit_events_def is_FhirSend_def)
  show ?thesis
  proof (cases r3)
    case (Inr d)
    with assms h have "r = Inr d" "c' = c3"
      by (simp_all add: fhir_verb_unfold)
    with h Inr new ne show ?thesis
      by (simp add: new_events_def verb_entry_trace sends_def count_events_def audit_no_send)
  next
    case (Inl error)
    with assms h have "r = Inl error"
      "c' = logFhirActivity E (audit_entry ev rt am path (requestId error) False) c3"
      by (simp_all add: fhir_verb_unfold)
    with h Inl new ne show ?thesis
      by (simp add: new_events_def verb_entry_trace logFhirActivity_trace sends_def
          count_events_def audit_no_send)
  qed
qed

definition attempt_before_send :: "event list \<Rightarrow> bool" where
  "attempt_before_send new =
     ((\<exists>e \<in> set new. is_auth_attempt e)
      \<and> filter is_FhirSend (takeWhile (\<lambda>e. \<not> is_auth_attempt e) new) = [])"

lemma attempt_before_send_intro:
  assumes "filter is_FhirSend pre = []" and "list_all (\<lambda>e. \<not> is_auth_attempt e) pre"
    and "is_auth_attempt a"
  shows "attempt_before_send (pre @ a # post)"
proof -
  have "takeWhile (\<lambda>e. \<not> is_auth_attempt e) (pre @ a # post) = pre"
    using assms(2,3) by (induction pre) auto
  with assms show ?thesis
    by (auto simp: attempt_before_send_def)
qed

text \<open>
  Claim C5. On a connector that holds no access token, every call that goes out through
  \<open>httpClient\<close>, and so every FHIR verb (\<open>search\<close> among them), makes an authentication
  attempt before anything is sent: an attempt is among the events of the call and no
  sending precedes the first one. If the refresh that the request interceptor then runs
  fails, the call fails and sends nothing.
\<close>

theorem authentication_before_use:
  assumes "\<not> truthy_str (accessToken c)"
  shows "(\<forall>cfg r c'. httpClient E cfg c = (r, c') \<longrightarrow>
            attempt_before_send (new_events c c')
          \<and> (\<forall>e ca. refreshAccessToken E (preflight c) = (Inl e, ca) \<longrightarrow>
                sends c' = sends c \<and> (\<exists>e'. r = Inl e')))
       \<and> (\<forall>r c'. fhir_verb E ev rt am hm path c = (r, c') \<longrightarrow>
            attempt_before_send (new_events c c')
          \<and> (\<forall>e ca. refreshAccessToken E (preflight (verb_entry E ev rt am path c)) = (Inl e, ca)
                \<longrightarrow> sends c' = sends c \<and> (\<exists>e'. r = Inl e')))
       \<and> (\<forall>r c'. search E rt c = (r, c') \<longrightarrow>
            attempt_before_send (new_events c c')
          \<and> (\<forall>e ca. refreshAccessToken E
                        (preflight (verb_entry E ''FHIR_READ'' rt ''GET'' (''/'' @ rt) c))
                      = (Inl e, ca)
                \<longrightarrow> sends c' = sends c \<and> (\<exists>e'. r = Inl e')))"
proof -
  have client: "attempt_before_send (new_events c c')
          \<and> (\<forall>e ca. refreshAccessToken E (preflight c) = (Inl e, ca) \<longrightarrow>
                sends c' = sends c \<and> (\<exists>e'. r = Inl e'))"
    if run: "httpClient E cfg c = (r, c')" for cfg r c'
  proof -
    from httpClient_unauthenticated[OF assms run] obtain a rest where
      "new_events c c' = a # rest" "is_auth_attempt a"
      and f: "\<forall>e ca. refreshAccessToken E (preflight c) = (Inl e, ca) \<longrightarrow>
            c' = ca \<and> sends c' = sends c \<and> (\<exists>e'. r = Inl e')"
      by blast
    with attempt_before_send_intro[of "[]" a rest] show ?thesis
      by auto
  qed
  have verb: "attempt_before_send (new_events c c')
          \<and> (\<forall>e ca. refreshAccessToken E (preflight (verb_entry E ev rt am path c)) = (Inl e, ca)
                \<longrightarrow> sends c' = sends c \<and> (\<exists>e'. r = Inl e'))"
    if run: "fhir_verb E ev rt am hm path c = (r, c')" for ev rt am hm path r c'
  proof -
    let ?c2 = "verb_entry E ev rt am path c"
    let ?pre = "audit_events E (audit_entry ev rt am path (Some (Uuid (uuids c))) True)"
    from fhir_verb_trace[OF run] obtain c3 where
      h: "httpClient E (verb_request hm path) ?c2 = (r, c3)"
      and n: "new_events c c' = ?pre @ new_events ?c2 c3
               @ (case r of Inr d \<Rightarrow> []
                  | Inl error \<Rightarrow> audit_events E (audit_entry ev rt am path (requestId error) False))"
      and s: "sends c' = sends ?c2 + length (filter is_FhirSend (new_events ?c2 c3))"
        "sends ?c2 = sends c"
      by blast
    have no2: "\<not> truthy_str (accessToken ?c2)"
      using assms by simp
    from httpClient_unauthenticated[OF no2 h] obtain a rest where
      first: "new_events ?c2 c3 = a # rest" "is_auth_attempt a"
      and f: "\<forall>e ca. refreshAccessToken E (preflight ?c2) = (Inl e, ca) \<longrightarrow>
            c3 = ca \<and> sends c3 = sends ?c2 \<and> (\<exists>e'. r = Inl e')"
      by blast
    have pre: "filter is_FhirSend ?pre = []" "list_all (\<lambda>e. \<not> is_auth_attempt e) ?pre"
      by (simp_all add: audit_events_def is_FhirSend_def is_auth_attempt_def is_TokenPost_def)
    from attempt_before_send_intro[OF pre first(2)] n first(1)
    have 1: "attempt_before_send (new_events c c')"
      by simp
    have 2: "sends c' = sends c \<and> (\<exists>e'. r = Inl e')"
      if "refreshAccessToken E (preflight ?c2) = (Inl e, ca)" for e ca
    proof -
      from f that have "sends c3 = sends ?c2" "\<exists>e'. r = Inl e'" by blast+
      moreover from httpClient_pipeline[OF h] have "trace c3 = trace ?c2 @ new_events ?c2 c3"
        by (auto simp: new_events_def)
      then have "sends c3 = sends ?c2 + length (filter is_FhirSend (new_events ?c2 c3))"
        by (simp add: sends_def count_events_def)
      ultimately show ?thesis using s by simp
    qed
    from 1 2 show ?thesis by blast
  qed
  from client verb[of "''FHIR_READ''" rt "''GET''" "''get''" "''/'' @ rt"] verb[of ev rt am hm path]
  show ?thesis
    unfolding search_def by blast
qed

theorem authentication_before_use_witness:
  "\<not> truthy_str (accessToken new_CernerConnector)
   \<and> attempt_before_send
       (new_events new_CernerConnector (snd (search granting ''Patient'' new_CernerConnector)))
   \<and> sends (snd (search offline ''Patient'' new_CernerConnector)) = 0
   \<and> (\<exists>e. fst (search offline ''Patient'' new_CernerConnector) = Inl e)"
proof -
  let ?entry = "verb_entry offline ''FHIR_READ'' ''Patient'' ''GET'' ''/Patient'' new_CernerConnector"
  have 0: "\<not> truthy_str (accessToken new_CernerConnector)"
    by (simp add: run_defs)
  have 1: "search granting ''Patient'' new_CernerConnector
      = (fst (search granting ''Patient'' new_CernerConnector),
         snd (search granting ''Patient'' new_CernerConnector))"
    "search offline ''Patient'' new_CernerConnector
      = (fst (search offline ''Patient'' new_CernerConnector),
         snd (search offline ''Patient'' new_CernerConnector))"
    by simp_all
  have 2: "refreshAccessToken offline (preflight ?entry)
      = (Inl (Error ''Cerner authentication failed: connect ECONNREFUSED''),
         snd (refreshAccessToken offline (preflight ?entry)))"
    by (simp add: preflight_def verb_entry_def audit_entry_def run_defs cong: prod.case_cong_weak)
  have 3: "sends new_CernerConnector = 0"
    by (simp add: sends_def run_defs)
  note granted = authentication_before_use[OF 0, where E = granting and rt = "''Patient''",
      THEN conjunct2, THEN conjunct2, rule_format, OF 1(1)]
  note refused = authentication_before_use[OF 0, where E = offline and rt = "''Patient''",
      THEN conjunct2, THEN conjunct2, rule_format, OF 1(2)]
  from refused[THEN conjunct2, rule_format, of _ "snd (refreshAccessToken offline (preflight ?entry))"]
    2 3 granted[THEN conjunct1] 0
  show ?thesis by simp
qed

section \<open>The audit trail of a verb\<close>

definition audit_calls :: "event list \<Rightarrow> audit_call list" where
  "audit_calls es = concat (map (\<lambda>e. case e of AuditLogged a \<Rightarrow> [a] | _ \<Rightarrow> []) es)"

lemma audit_calls_append [simp]: "audit_calls (xs @ ys) = audit_calls xs @ audit_calls ys"
  by (simp add: audit_calls_def)

lemma audit_calls_pipeline: "list_all pipeline_event new \<Longrightarrow> audit_calls new = []"
  by (induction new)
     (auto simp: audit_calls_def pipeline_event_def auth_event_def is_TokenPost_def
        is_FhirSend_def split: event.splits)

lemma audit_calls_audit_events:
  "audit_calls (audit_events E a) = (if audit_enabled E then [a] else [])"
  by (simp add: audit_calls_def audit_events_def)

text \<open>
  Claim C2, as amended. With auditing switched on, a verb writes an audit record marked
  as success, tagged with a freshly drawn request identifier, before anything else
  happens; a verb that then succeeds writes nothing more, so that its one record
  reflects its outcome; a verb that fails writes one more record, marked as failure and
  tagged with the request identifier that the error carries, and that record is the last
  event of the operation. With auditing switched off a verb writes no audit record.
\<close>

theorem audit_trail_of_a_verb:
  assumes "fhir_verb E ev rt am hm path c = (r, c')"
  shows "audit_calls (new_events c c') =
           (if audit_enabled E then
              audit_entry ev rt am path (Some (Uuid (uuids c))) True #
                (case r of
                   Inr d \<Rightarrow> []
                 | Inl error \<Rightarrow> [audit_entry ev rt am path (requestId error) False])
            else [])
       \<and> (audit_enabled E \<longrightarrow>
            (\<exists>rest. new_events c c' =
               AuditLogged (audit_entry ev rt am path (Some (Uuid (uuids c))) True) # rest))
       \<and> (audit_enabled E \<longrightarrow>
            (\<forall>error. r = Inl error \<longrightarrow>
               last (new_events c c') =
                 AuditLogged (audit_entry ev rt am path (requestId error) False)))"
proof -
  let ?c2 = "verb_entry E ev rt am path c"
  from fhir_verb_trace[OF assms] obtain c3 where
    n: "new_events c c' =
          audit_events E (audit_entry ev rt am path (Some (Uuid (uuids c))) True)
          @ new_events ?c2 c3
          @ (case r of Inr d \<Rightarrow> []
             | Inl error \<Rightarrow> audit_events E (audit_entry ev rt am path (requestId error) False))"
    and p: "list_all pipeline_event (new_events ?c2 c3)"
    by blast
  have 1: "audit_calls (new_events c c') =
           (if audit_enabled E then
              audit_entry ev rt am path (Some (Uuid (uuids c))) True #
                (case r of
                   Inr d \<Rightarrow> []
                 | Inl error \<Rightarrow> [audit_entry ev rt am path (requestId error) False])
            else [])"
    using audit_calls_pipeline[OF p]
    by (cases r) (simp_all add: n audit_calls_audit_events)
  have 2: "\<exists>rest. new_events c c' =
               AuditLogged (audit_entry ev rt am path (Some (Uuid (uuids c))) True) # rest"
    if "audit_enabled E"
    using that by (simp add: n audit_events_def)
  have 3: "last (new_events c c') =
                 AuditLogged (audit_entry ev rt am path (requestId error) False)"
    if "audit_enabled E" "r = Inl error" for error
    using that by (simp add: n audit_events_def)
  from 1 2 3 show ?thesis by blast
qed

text \<open>A vendor that grants tokens and answers every FHIR request with one patient.\<close>

definition healthy :: env where
  "healthy = granting\<lparr>fhir_reply := (\<lambda>n. Resolved \<lparr>entry = Some [''Patient/123'']\<rparr>)\<rparr>"

theorem audit_trail_of_a_verb_witness:
  "fst (search healthy ''Patient'' new_CernerConnector) = Inr \<lparr>entry = Some [''Patient/123'']\<rparr>
   \<and> audit_calls (new_events new_CernerConnector
        (snd (search healthy ''Patient'' new_CernerConnector)))
       = [audit_entry ''FHIR_READ'' ''Patient'' ''GET'' ''/Patient'' (Some (Uuid 0)) True]"
proof -
  have 0: "fst (search healthy ''Patient'' new_CernerConnector)
      = Inr \<lparr>entry = Some [''Patient/123'']\<rparr>"
    by (simp add: healthy_def granting_def run_defs cong: prod.case_cong_weak)
  then have 1: "fhir_verb healthy ''FHIR_READ'' ''Patient'' ''GET'' ''get'' ''/Patient''
        new_CernerConnector
      = (Inr \<lparr>entry = Some [''Patient/123'']\<rparr>,
         snd (search healthy ''Patient'' new_CernerConnector))"
    by (simp add: search_def prod_eq_iff)
  have 2: "audit_enabled healthy" "uuids new_CernerConnector = 0"
    by (simp_all add: healthy_def granting_def run_defs)
  from audit_trail_of_a_verb[OF 1, THEN conjunct1] 0 2 show ?thesis
    by simp
qed

text \<open>
  As first stated, the claim has every operation leave exactly one audit record, which
  reflects its outcome. A \<open>search\<close> against an unreachable vendor fails, and leaves two
  records: the first marked as success, the second as failure, under different request
  identifiers.
\<close>

theorem audit_trail_two_records_counterexample:
  "audit_enabled offline
   \<and> fst (search offline ''Observation'' new_EpicConnector)
       = Inl \<lparr>message = ''EHR API Error (Epic): Epic authentication failed: ''
                  @ ''Failed to fetch Epic capability statement: connect ECONNREFUSED'',
              response = None, config = None, status = Some 0, requestId = Some Unknown\<rparr>
   \<and> audit_calls (trace (snd (search offline ''Observation'' new_EpicConnector)))
       = [audit_entry ''FHIR_READ'' ''Observation'' ''GET'' ''/Observation'' (Some (Uuid 0)) True,
          audit_entry ''FHIR_READ'' ''Observation'' ''GET'' ''/Observation'' (Some Unknown) False]"
  by (simp add: audit_calls_def audit_entry_def run_defs cong: prod.case_cong_weak)

section \<open>Defaults are written into the caller's object\<close>



definition is_object :: "heap \<Rightarrow> nat \<Rightarrow> bool" where
  "is_object h r = (case lookup_cell h r of Some (Obj fs) \<Rightarrow> True | _ \<Rightarrow> False)"



lemma set_field_length [simp]: "length (set_field h r k v) = length h"
  by (auto simp: set_field_def lookup_cell_def split: option.splits cell.splits)

lemma set_field_is_object [simp]: "is_object (set_field h r k v) r = is_object h r"
  by (auto simp: is_object_def set_field_def lookup_cell_def split: option.splits cell.splits)
















section \<open>Callers do not share a refresh\<close>

text \<open>One caller alone, run to completion, fares as the request interceptor does.\<close>

lemma run_single_caller:
  assumes "cls c = CernerConnector"
  shows "run E [0, 0, 0] ([Start], c) =
     (case request_interceptor E cfg c of
        (Inl e, c') \<Rightarrow> ([Failed e], c')
      | (Inr cfg', c') \<Rightarrow> ([Ready], c'))"
  using assms
  by (simp add: run_def step_def resume_def begin_authenticate_def request_interceptor_def
      refreshAccessToken_def refreshAccessToken_try_def authenticate_def cerner_authenticate_def
      post_token_def count_events_def emit_def Date_now_def clear_tokens_def is_TokenPost_def
      isTokenExpired_def Let_def
      split: http_reply.splits)













end
